theory Spec2Isabelle
  imports Main "HOL-Library.Monad_Syntax"
begin

section \<open>Python values the package computes with\<close>

text \<open>
  Python's unbounded integers are \<^typ>\<open>int\<close>. A Python \<open>str\<close> is a sequence of code
  points; the model holds it as the \<^typ>\<open>string\<close> of its UTF-8 bytes (so the two
  non-ASCII code points of the source, U+2019 and U+2011 in one activity text, are three
  bytes each), and the operations that look at characters work on the decoded code points.
\<close>

subsection \<open>Formatting integers: \<open>str(n)\<close>, \<open>{n}\<close> and \<open>{n:02d}\<close>\<close>

definition digit_char :: "nat \<Rightarrow> char" where
  "digit_char d = ''0123456789'' ! d"

fun digits :: "nat \<Rightarrow> string" where
  "digits n = (if n < 10 then [digit_char n] else digits (n div 10) @ [digit_char (n mod 10)])"

declare digits.simps [simp del]

definition str_int :: "int \<Rightarrow> string" where
  "str_int i = (if i < 0 then CHR ''-'' # digits (nat (- i)) else digits (nat i))"

text \<open>The format specification \<open>02d\<close>: sign first, then zeros up to a total width of two.\<close>

definition zero_pad :: "nat \<Rightarrow> string \<Rightarrow> string" where
  "zero_pad w s = replicate (w - length s) CHR ''0'' @ s"

definition format_02d :: "int \<Rightarrow> string" where
  "format_02d i = (if i < 0 then CHR ''-'' # zero_pad 1 (digits (nat (- i))) else zero_pad 2 (digits (nat i)))"

subsection \<open>Code points and their UTF-8 bytes\<close>

text \<open>The number of continuation bytes a first byte announces, and the bits it carries.\<close>

definition utf8_follow :: "nat \<Rightarrow> nat" where
  "utf8_follow n = (if n < 0xC0 then 0 else if n < 0xE0 then 1 else if n < 0xF0 then 2 else 3)"

definition utf8_lead :: "nat \<Rightarrow> nat" where
  "utf8_lead n =
     (if n < 0xC0 then n else if n < 0xE0 then n - 0xC0 else if n < 0xF0 then n - 0xE0 else n - 0xF0)"

function utf8_decode :: "string \<Rightarrow> nat list" where
  "utf8_decode [] = []"
| "utf8_decode (b # bs) =
     foldl (\<lambda>a c. a * 64 + of_char c mod 64) (utf8_lead (of_char b)) (take (utf8_follow (of_char b)) bs)
     # utf8_decode (drop (utf8_follow (of_char b)) bs)"
  by pat_completeness auto
termination
  by (relation "measure length") auto

definition utf8_encode_cp :: "nat \<Rightarrow> string" where
  "utf8_encode_cp c =
     (if c < 0x80 then [char_of c]
      else if c < 0x800 then [char_of (0xC0 + c div 64), char_of (0x80 + c mod 64)]
      else if c < 0x10000 then
        [char_of (0xE0 + c div 4096), char_of (0x80 + c div 64 mod 64), char_of (0x80 + c mod 64)]
      else
        [char_of (0xF0 + c div 262144), char_of (0x80 + c div 4096 mod 64),
         char_of (0x80 + c div 64 mod 64), char_of (0x80 + c mod 64)])"

definition utf8_encode :: "nat list \<Rightarrow> string" where
  "utf8_encode cps = concat (map utf8_encode_cp cps)"

subsection \<open>\<open>str.strip\<close>, \<open>str.join\<close> and \<open>re.sub(r"\s+", "-", s)\<close>\<close>

text \<open>The code points for which \<open>str.isspace\<close> holds, which \<open>str.strip\<close> removes; the
  regular expression class \<open>\s\<close> of a \<open>str\<close> pattern matches the same ones.\<close>

definition is_space :: "nat \<Rightarrow> bool" where
  "is_space c =
     (c \<in> {0x09, 0x0A, 0x0B, 0x0C, 0x0D, 0x1C, 0x1D, 0x1E, 0x1F, 0x20, 0x85, 0xA0, 0x1680,
            0x2028, 0x2029, 0x202F, 0x205F, 0x3000}
      \<or> (0x2000 \<le> c \<and> c \<le> 0x200A))"

definition strip :: "nat list \<Rightarrow> nat list" where
  "strip s = rev (dropWhile is_space (rev (dropWhile is_space s)))"

text \<open>\<open>re.sub(r"\s+", "-", s)\<close>: scanning from the left, every maximal run of whitespace is
  one match and is replaced by one hyphen (code point 45); every other character is copied.\<close>

function re_sub_ws :: "nat list \<Rightarrow> nat list" where
  "re_sub_ws [] = []"
| "re_sub_ws (c # cs) =
     (if is_space c then 45 # re_sub_ws (dropWhile is_space cs) else c # re_sub_ws cs)"
  by pat_completeness auto
termination
  by (relation "measure length") (auto simp: less_Suc_eq_le length_dropWhile_le)

fun join :: "'a list \<Rightarrow> 'a list list \<Rightarrow> 'a list" where
  "join sep [] = []"
| "join sep [x] = x"
| "join sep (x # y # ys) = x @ sep @ join sep (y # ys)"

subsection \<open>Slices \<open>xs[start:stop]\<close> and \<open>range(n)\<close>\<close>

text \<open>A negative bound counts from the end; every bound is clamped to the list.\<close>

definition slice_bound :: "int \<Rightarrow> nat \<Rightarrow> nat" where
  "slice_bound i n = (if i < 0 then nat (int n + i) else min (nat i) n)"

definition py_slice :: "'a list \<Rightarrow> int \<Rightarrow> int \<Rightarrow> 'a list" where
  "py_slice xs start stop =
     (let n = length xs; lo = slice_bound start n; hi = slice_bound stop n
      in take (hi - lo) (drop lo xs))"

definition py_range :: "int \<Rightarrow> int list" where
  "py_range n = map int [0..<nat n]"

text \<open>\<open>d.get(key, "")\<close> on a dictionary whose values are strings, and \<open>a or b\<close> on strings.\<close>

definition get_or_empty :: "string option \<Rightarrow> string" where
  "get_or_empty v = (case v of None \<Rightarrow> [] | Some s \<Rightarrow> s)"

definition py_or :: "string \<Rightarrow> string \<Rightarrow> string" where
  "py_or a b = (if a \<noteq> [] then a else b)"

section \<open>The padding loop of \<open>generate_learning_path\<close>\<close>

text \<open>
  \<^verbatim>\<open>while len(videos) < total_videos and videos: videos.extend(videos)\<close>
  (and the same loop for the articles). The loop is not assumed to end: \<open>None\<close> is a run
  that never leaves it.
\<close>

partial_function (option) pad_loop :: "'a list \<Rightarrow> int \<Rightarrow> 'a list option" where
  "pad_loop resources required =
     (if int (length resources) < required \<and> resources \<noteq> []
      then pad_loop (resources @ resources) required
      else Some resources)"

text \<open>The loop followed by the truncation \<open>videos = videos[:total_videos]\<close>.\<close>

definition pad_to :: "'a list \<Rightarrow> int \<Rightarrow> 'a list option" where
  "pad_to resources required =
     do { padded \<leftarrow> pad_loop resources required; Some (py_slice padded 0 required) }"

section \<open>\<open>medium_client\<close>\<close>

text \<open>A feed entry as \<open>feedparser\<close> gives it: each key the client reads may be absent.\<close>

record feed_entry =
  entry_title :: "string option"
  entry_link :: "string option"
  entry_published :: "string option"
  entry_updated :: "string option"
  entry_summary :: "string option"

record article_resource =
  article_title :: string
  article_url :: string
  published :: string
  summary :: string

definition article_of :: "feed_entry \<Rightarrow> article_resource" where
  "article_of entry =
     \<lparr> article_title = get_or_empty (entry_title entry),
       article_url = get_or_empty (entry_link entry),
       published = py_or (get_or_empty (entry_published entry)) (get_or_empty (entry_updated entry)),
       summary = get_or_empty (entry_summary entry) \<rparr>"

text \<open>\<open>feedparser_parse\<close> stands for \<open>feedparser.parse(url).entries\<close>.\<close>

definition get_articles_for_tag ::
  "(string \<Rightarrow> feed_entry list) \<Rightarrow> string \<Rightarrow> int \<Rightarrow> article_resource list" where
  "get_articles_for_tag feedparser_parse tag max_articles =
     (let feed_url = ''https://medium.com/feed/tag/'' @ tag;
          entries = feedparser_parse feed_url
      in map article_of (py_slice entries 0 max_articles))"

section \<open>\<open>youtube_client\<close>\<close>

text \<open>
  What a call of the API client can raise. \<open>HttpError\<close> is
  \<open>googleapiclient.errors.HttpError\<close>, the only class the two \<open>except\<close> clauses name;
  \<open>TransportError\<close> is any failure of \<open>execute()\<close> below the HTTP layer (the client
  library raises those as \<open>httplib2\<close> or socket errors, which are no \<open>HttpError\<close>);
  \<open>KeyError\<close> is a subscript on a missing key.
\<close>

datatype py_error = HttpError | TransportError | KeyError

text \<open>The two exceptions \<open>isodate.parse_duration\<close> is caught for.\<close>

datatype parse_error = ValueError | TypeError

record snippet =
  snippet_title :: "string option"
  channelTitle :: "string option"
  publishedAt :: "string option"

text \<open>\<open>videoId\<close> is \<open>item["id"]["videoId"]\<close>, \<open>None\<close> when a key of the path is missing.\<close>

record search_item =
  videoId :: "string option"
  item_snippet :: "snippet option"

text \<open>An item of the \<open>videos.list\<close> response: \<open>vid["id"]\<close> and
  \<open>vid["contentDetails"]["duration"]\<close>.\<close>

record details_item =
  details_id :: "string option"
  contentDetails_duration :: "string option"

text \<open>
  The service object: \<open>search_list q maxResults order\<close> is
  \<open>youtube.search().list(part="snippet", q=..., type="video", maxResults=..., order=...).execute()\<close>
  and \<open>videos_list ids\<close> is \<open>youtube.videos().list(part="contentDetails", id=ids).execute()\<close>;
  the result is the exception raised or the \<open>items\<close> entry of the response, \<open>None\<close> when
  the response has no such key.
\<close>

record youtube_service =
  search_list :: "string \<Rightarrow> int \<Rightarrow> string \<Rightarrow> py_error + search_item list option"
  videos_list :: "string \<Rightarrow> py_error + details_item list option"

record video_resource =
  title :: string
  channel :: string
  video_id :: string
  url :: string
  published_at :: string
  duration :: string

text \<open>The libraries the package calls: \<open>googleapiclient.discovery.build\<close> for an API key,
  \<open>isodate.parse_duration\<close> (its result read in whole seconds), \<open>feedparser.parse\<close>, and
  the built-in \<open>str.lower\<close>, a function on code points whose Unicode case mapping is no part
  of the package.\<close>

record services =
  build :: "string \<Rightarrow> youtube_service"
  parse_duration :: "string \<Rightarrow> parse_error + int"
  feedparser_parse :: "string \<Rightarrow> feed_entry list"
  str_lower :: "nat list \<Rightarrow> nat list"

text \<open>\<open>video_ids = [item["id"]["videoId"] for item in items]\<close>\<close>

fun collect_video_ids :: "search_item list \<Rightarrow> py_error + string list" where
  "collect_video_ids [] = Inr []"
| "collect_video_ids (item # items) =
     (case videoId item of
        None \<Rightarrow> Inl KeyError
      | Some vid_id \<Rightarrow>
          (case collect_video_ids items of Inl e \<Rightarrow> Inl e | Inr ids \<Rightarrow> Inr (vid_id # ids)))"

text \<open>The loop \<open>for vid in video_response.get("items", [])\<close> filling the dictionary.\<close>

fun collect_durations :: "details_item list \<Rightarrow> (string \<rightharpoonup> string) \<Rightarrow> py_error + (string \<rightharpoonup> string)" where
  "collect_durations [] durations = Inr durations"
| "collect_durations (vid # vids) durations =
     (case details_id vid of
        None \<Rightarrow> Inl KeyError
      | Some vid_id \<Rightarrow>
          (case contentDetails_duration vid of
             None \<Rightarrow> Inl KeyError
           | Some d \<Rightarrow> collect_durations vids (durations(vid_id \<mapsto> d))))"

text \<open>The \<open>try\<close> block around the details lookup: only \<open>HttpError\<close> is caught.\<close>

definition fetch_durations :: "youtube_service \<Rightarrow> string list \<Rightarrow> py_error + (string \<rightharpoonup> string)" where
  "fetch_durations youtube video_ids =
     (case videos_list youtube (join '','' video_ids) of
        Inl e \<Rightarrow> (if e = HttpError then Inr Map.empty else Inl e)
      | Inr response \<Rightarrow> collect_durations (case response of None \<Rightarrow> [] | Some vids \<Rightarrow> vids) Map.empty)"

text \<open>
  The conversion of the looked-up duration. \<open>total_seconds() // 60\<close> and
  \<open>total_seconds() % 60\<close> are floor division and its remainder, \<open>div\<close> and \<open>mod\<close> on
  \<^typ>\<open>int\<close>.
\<close>

definition duration_str_of :: "(string \<Rightarrow> parse_error + int) \<Rightarrow> string option \<Rightarrow> string" where
  "duration_str_of parse duration_iso =
     (case duration_iso of
        None \<Rightarrow> []
      | Some iso_text \<Rightarrow>
          if iso_text = [] then []
          else (case parse iso_text of
                  Inl e \<Rightarrow> iso_text
                | Inr total_seconds \<Rightarrow>
                    (let minutes = total_seconds div 60; seconds = total_seconds mod 60
                     in str_int minutes @ '':'' @ format_02d seconds)))"

definition video_of ::
  "(string \<Rightarrow> parse_error + int) \<Rightarrow> (string \<rightharpoonup> string) \<Rightarrow> search_item \<times> string \<Rightarrow> video_resource" where
  "video_of parse durations p =
     (let item = fst p; vid_id = snd p;
          snip = (case item_snippet item of
                    None \<Rightarrow> \<lparr> snippet_title = None, channelTitle = None, publishedAt = None \<rparr>
                  | Some s \<Rightarrow> s)
      in \<lparr> title = get_or_empty (snippet_title snip),
           channel = get_or_empty (channelTitle snip),
           video_id = vid_id,
           url = ''https://www.youtube.com/watch?v='' @ vid_id,
           published_at = get_or_empty (publishedAt snip),
           duration = duration_str_of parse (durations vid_id) \<rparr>)"

definition search_videos ::
  "services \<Rightarrow> string \<Rightarrow> string \<Rightarrow> int \<Rightarrow> string \<Rightarrow> py_error + video_resource list" where
  "search_videos S api_key query max_results order =
     (let youtube = build S api_key
      in case search_list youtube query max_results order of
           Inl e \<Rightarrow> (if e = HttpError then Inr [] else Inl e)
         | Inr response \<Rightarrow>
             (let items = (case response of None \<Rightarrow> [] | Some its \<Rightarrow> its)
              in if items = [] then Inr []
                 else (case collect_video_ids items of
                         Inl e \<Rightarrow> Inl e
                       | Inr video_ids \<Rightarrow>
                           (case fetch_durations youtube video_ids of
                              Inl e \<Rightarrow> Inl e
                            | Inr durations \<Rightarrow>
                                Inr (map (video_of (parse_duration S) durations) (zip items video_ids))))))"

section \<open>\<open>learning_path\<close>\<close>

definition suggest_activities :: "int \<Rightarrow> string \<Rightarrow> string" where
  "suggest_activities week_index skill =
     (if week_index = 0 then
        ''Set up your environment for '' @ skill @ ''. Work through basic examples ''
        @ ''covered in the videos and summarise the key concepts in your own words.''
      else if week_index = 1 then
        ''Experiment with building small components or programs using '' @ skill @ ''. ''
        @ ''Complete exercises from articles and implement variations.''
      else if week_index = 2 then
        ''Apply what you'' @ [CHR 0xE2, CHR 0x80, CHR 0x99] @ ''ve learned to a mini''
        @ [CHR 0xE2, CHR 0x80, CHR 0x91] @ ''project. Focus on more advanced features ''
        @ ''and read deeper resources.''
      else
        ''Develop a capstone project incorporating multiple concepts of '' @ skill @ ''. ''
        @ ''Write a blog post or create a video summarising your project and share it.'')"

definition default_themes :: "string list" where
  "default_themes = [''Foundations'', ''Core Concepts'', ''Advanced Topics'', ''Project & Practice'']"

record week_plan =
  week :: int
  theme :: string
  videos :: "video_resource list"
  articles :: "article_resource list"
  activities :: string

text \<open>The body of \<open>for week_num in range(weeks)\<close>.\<close>

definition week_entry ::
  "string \<Rightarrow> int \<Rightarrow> int \<Rightarrow> video_resource list \<Rightarrow> article_resource list \<Rightarrow> int \<Rightarrow> week_plan" where
  "week_entry skill videos_per_week articles_per_week vs as week_num =
     \<lparr> week = week_num + 1,
       theme = (if week_num < int (length default_themes) then default_themes ! nat week_num
                else ''Week '' @ str_int (week_num + 1)),
       videos = py_slice vs (week_num * videos_per_week) ((week_num + 1) * videos_per_week),
       articles = py_slice as (week_num * articles_per_week) ((week_num + 1) * articles_per_week),
       activities = suggest_activities week_num skill \<rparr>"

text \<open>\<open>re.sub(r"\s+", "-", skill.strip().lower())\<close>, with \<open>lower\<close> for \<open>str.lower\<close>.\<close>

definition tag_slug_of :: "(nat list \<Rightarrow> nat list) \<Rightarrow> string \<Rightarrow> string" where
  "tag_slug_of lower skill = utf8_encode (re_sub_ws (lower (strip (utf8_decode skill))))"

text \<open>
  The result is \<open>None\<close> when a padding loop never ends, \<open>Some (Inl e)\<close> when the call
  raises \<open>e\<close> and \<open>Some (Inr plan)\<close> when it returns \<open>plan\<close>.
\<close>

definition generate_learning_path ::
  "services \<Rightarrow> string \<Rightarrow> string \<Rightarrow> int \<Rightarrow> int \<Rightarrow> int \<Rightarrow> string \<Rightarrow> (py_error + week_plan list) option" where
  "generate_learning_path S skill youtube_api_key weeks videos_per_week articles_per_week search_order =
     (let total_videos = weeks * videos_per_week;
          total_articles = weeks * articles_per_week;
          video_query = skill @ '' tutorial''
      in case search_videos S youtube_api_key video_query total_videos search_order of
           Inl e \<Rightarrow> Some (Inl e)
         | Inr found_videos \<Rightarrow>
             (let tag_slug = tag_slug_of (str_lower S) skill;
                  found_articles = get_articles_for_tag (feedparser_parse S) tag_slug total_articles;
                  vs0 = (if found_videos = [] then [] else found_videos);
                  as0 = (if found_articles = [] then [] else found_articles)
              in do {
                   vs1 \<leftarrow> pad_to vs0 total_videos;
                   as1 \<leftarrow> pad_to as0 total_articles;
                   Some (Inr (map (week_entry skill videos_per_week articles_per_week vs1 as1)
                                  (py_range weeks)))
                 }))"

section \<open>The tag slug in the words of the specification\<close>

text \<open>
  Trimmed, lower-cased, every inner run of whitespace turned into one hyphen: the words of
  the trimmed and lower-cased skill (its maximal runs of characters that are no whitespace),
  joined by single hyphens. This definition follows the specification, not the source; the
  source's computation is \<open>tag_slug_of\<close>.
\<close>

function words_of :: "nat list \<Rightarrow> nat list list" where
  "words_of [] = []"
| "words_of (c # cs) =
     (if is_space c then words_of cs
      else (c # takeWhile (\<lambda>x. \<not> is_space x) cs) # words_of (dropWhile (\<lambda>x. \<not> is_space x) cs))"
  by pat_completeness auto
termination
  by (relation "measure length") (auto simp: less_Suc_eq_le length_dropWhile_le)

text \<open>A text without whitespace at either end.\<close>

definition trimmed :: "nat list \<Rightarrow> bool" where
  "trimmed t = (t = [] \<or> (\<not> is_space (hd t) \<and> \<not> is_space (last t)))"

definition slug_spec :: "(nat list \<Rightarrow> nat list) \<Rightarrow> string \<Rightarrow> string" where
  "slug_spec lower skill = utf8_encode (join [45] (words_of (lower (strip (utf8_decode skill)))))"

section \<open>The shape of a formatted duration\<close>

text \<open>Minutes, a colon and two digits of seconds: an optional minus sign (Python prints one
  for the minutes of a negative duration), at least one digit, \<open>:\<close>, exactly two digits.\<close>

definition is_digit :: "char \<Rightarrow> bool" where
  "is_digit c = (c \<in> set ''0123456789'')"

definition min_sec_form :: "string \<Rightarrow> bool" where
  "min_sec_form s =
     (let m = takeWhile (\<lambda>c. c \<noteq> CHR '':'') s;
          r = dropWhile (\<lambda>c. c \<noteq> CHR '':'') s;
          ds = (case m of [] \<Rightarrow> [] | c # cs \<Rightarrow> if c = CHR ''-'' then cs else m)
      in ds \<noteq> [] \<and> list_all is_digit ds \<and> length r = 3 \<and> list_all is_digit (tl r))"

section \<open>A concrete environment\<close>

text \<open>A search service with three videos (one with a duration the parser accepts, one with
  a text it rejects, one without details) and a feed with two entries under the tag
  \<open>react\<close>; the theorems below are run on it.\<close>

definition demo_items :: "search_item list" where
  "demo_items =
     [\<lparr> videoId = Some ''a1'',
        item_snippet = Some \<lparr> snippet_title = Some ''Intro'', channelTitle = Some ''Chan'',
                               publishedAt = Some ''2024-01-01T00:00:00Z'' \<rparr> \<rparr>,
      \<lparr> videoId = Some ''b2'', item_snippet = None \<rparr>,
      \<lparr> videoId = Some ''c3'',
        item_snippet = Some \<lparr> snippet_title = Some ''Deep dive'', channelTitle = None,
                               publishedAt = None \<rparr> \<rparr>]"

definition demo_details :: "details_item list" where
  "demo_details =
     [\<lparr> details_id = Some ''a1'', contentDetails_duration = Some ''PT2M5S'' \<rparr>,
      \<lparr> details_id = Some ''b2'', contentDetails_duration = Some ''unknown'' \<rparr>]"

definition demo_youtube :: youtube_service where
  "demo_youtube =
     \<lparr> search_list = (\<lambda>q max_results ord. Inr (Some (take (nat max_results) demo_items))),
       videos_list = (\<lambda>ids. Inr (Some demo_details)) \<rparr>"

definition demo_parse :: "string \<Rightarrow> parse_error + int" where
  "demo_parse s = (if s = ''PT2M5S'' then Inr 125 else Inl ValueError)"

definition demo_entries :: "feed_entry list" where
  "demo_entries =
     [\<lparr> entry_title = Some ''Hooks'', entry_link = Some ''https://medium.com/p/1'',
        entry_published = Some ''Mon, 01 Jan 2024'', entry_updated = None,
        entry_summary = Some ''About hooks'' \<rparr>,
      \<lparr> entry_title = None, entry_link = None, entry_published = None,
        entry_updated = Some ''2024-02-02'', entry_summary = None \<rparr>]"

definition demo_feed :: "string \<Rightarrow> feed_entry list" where
  "demo_feed feed_url = (if feed_url = ''https://medium.com/feed/tag/react'' then demo_entries else [])"

text \<open>Lower-casing of the letters A to Z: what \<open>str.lower\<close> does on a text of ASCII
  characters.\<close>

definition ascii_lower :: "nat list \<Rightarrow> nat list" where
  "ascii_lower cps = map (\<lambda>c. if 65 \<le> c \<and> c \<le> 90 then c + 32 else c) cps"

definition demo_services :: services where
  "demo_services = \<lparr> build = (\<lambda>api_key. demo_youtube), parse_duration = demo_parse,
                      feedparser_parse = demo_feed, str_lower = ascii_lower \<rparr>"

definition demo_videos :: "video_resource list" where
  "demo_videos =
     [\<lparr> title = ''Intro'', channel = ''Chan'', video_id = ''a1'',
        url = ''https://www.youtube.com/watch?v=a1'',
        published_at = ''2024-01-01T00:00:00Z'', duration = ''2:05'' \<rparr>,
      \<lparr> title = '''', channel = '''', video_id = ''b2'',
        url = ''https://www.youtube.com/watch?v=b2'', published_at = '''',
        duration = ''unknown'' \<rparr>,
      \<lparr> title = ''Deep dive'', channel = '''', video_id = ''c3'',
        url = ''https://www.youtube.com/watch?v=c3'', published_at = '''',
        duration = '''' \<rparr>]"

text \<open>The same environment with a failing call: the search or the details lookup raises an
  error of the transport.\<close>

definition search_offline_services :: services where
  "search_offline_services =
     demo_services \<lparr> build := (\<lambda>api_key. demo_youtube \<lparr> search_list := (\<lambda>q max_results ord. Inl TransportError) \<rparr>) \<rparr>"

definition details_offline_services :: services where
  "details_offline_services =
     demo_services \<lparr> build := (\<lambda>api_key. demo_youtube \<lparr> videos_list := (\<lambda>ids. Inl TransportError) \<rparr>) \<rparr>"

section \<open>Padding: the loop ends and yields a cyclic prefix\<close>

lemma concat_replicate_double:
  "concat (replicate m (xs @ xs)) = concat (replicate (2 * m) xs)"
  by (induction m) simp_all

lemma length_concat_replicate:
  "length (concat (replicate m xs)) = m * length xs"
  by (induction m) simp_all

lemma nth_concat_replicate:
  "i < m * length xs \<Longrightarrow> concat (replicate m xs) ! i = xs ! (i mod length xs)"
proof (induction m arbitrary: i)
  case 0
  then show ?case by simp
next
  case (Suc m)
  show ?case
  proof (cases "i < length xs")
    case True
    then show ?thesis by (simp add: nth_append)
  next
    case False
    then have "i - length xs < m * length xs" using Suc.prems by simp
    then have "concat (replicate m xs) ! (i - length xs) = xs ! ((i - length xs) mod length xs)"
      by (rule Suc.IH)
    moreover have "(i - length xs) mod length xs = i mod length xs"
      using False by (simp add: le_mod_geq)
    ultimately show ?thesis using False by (simp add: nth_append)
  qed
qed

lemma take_concat_replicate:
  assumes "n \<le> m * length xs"
  shows "take n (concat (replicate m xs)) = map (\<lambda>i. xs ! (i mod length xs)) [0..<n]"
proof (rule nth_equalityI)
  show "length (take n (concat (replicate m xs))) = length (map (\<lambda>i. xs ! (i mod length xs)) [0..<n])"
    using assms by (simp add: length_concat_replicate)
next
  fix i
  assume "i < length (take n (concat (replicate m xs)))"
  then have "i < n" by simp
  then have "i < m * length xs" using assms by simp
  then show "take n (concat (replicate m xs)) ! i = map (\<lambda>i. xs ! (i mod length xs)) [0..<n] ! i"
    using \<open>i < n\<close> by (simp add: nth_concat_replicate)
qed

lemma pad_loop_replicate:
  "\<exists>k. pad_loop xs n = Some (concat (replicate (2 ^ k) xs))
       \<and> (xs = [] \<or> n \<le> int (2 ^ k * length xs))"
proof (induction "nat (n - int (length xs))" arbitrary: xs rule: less_induct)
  case less
  show ?case
  proof (cases "int (length xs) < n \<and> xs \<noteq> []")
    case True
    then have "nat (n - int (length (xs @ xs))) < nat (n - int (length xs))"
      by auto
    from less [OF this] obtain k where
      k: "pad_loop (xs @ xs) n = Some (concat (replicate (2 ^ k) (xs @ xs)))"
         "n \<le> int (2 ^ k * length (xs @ xs))"
      using True by auto
    have "pad_loop xs n = pad_loop (xs @ xs) n"
      using True by (subst pad_loop.simps) simp
    then have "pad_loop xs n = Some (concat (replicate (2 ^ Suc k) xs))"
      using k(1) by (simp add: concat_replicate_double)
    moreover have "n \<le> int (2 ^ Suc k * length xs)"
      using k(2) by simp
    ultimately show ?thesis by blast
  next
    case False
    then have "pad_loop xs n = Some xs"
      by (subst pad_loop.simps) auto
    then have "pad_loop xs n = Some (concat (replicate (2 ^ 0) xs))"
      by simp
    moreover have "xs = [] \<or> n \<le> int (2 ^ 0 * length xs)"
      using False by auto
    ultimately show ?thesis by blast
  qed
qed

lemma py_slice_prefix: "0 \<le> n \<Longrightarrow> py_slice xs 0 n = take (nat n) xs"
  by (simp add: py_slice_def slice_bound_def Let_def min_def)

lemma pad_to_empty: "pad_to [] n = Some []"
  by (simp add: pad_to_def pad_loop.simps py_slice_def)

lemma pad_to_cycle:
  assumes "xs \<noteq> []" and "0 \<le> n"
  shows "pad_to xs n = Some (map (\<lambda>i. xs ! (i mod length xs)) [0..<nat n])"
proof -
  obtain k where k: "pad_loop xs n = Some (concat (replicate (2 ^ k) xs))"
    "n \<le> int (2 ^ k * length xs)"
    using pad_loop_replicate [of xs n] assms by auto
  have "nat n \<le> 2 ^ k * length xs" using k(2) by linarith
  then show ?thesis
    using k(1) assms by (simp add: pad_to_def py_slice_prefix take_concat_replicate)
qed

text \<open>
  Claim C2. For a non-empty raw sequence \<open>s\<close> and a required total \<open>n\<close> (a count, so
  \<open>0 \<le> n\<close>), padding and truncating yields exactly the first \<open>n\<close> elements of the
  endless repetition of \<open>s\<close>: position \<open>i\<close> holds \<open>s ! (i mod length s)\<close>. For three
  elements and a total of seven these are the indices 0, 1, 2, 0, 1, 2, 0.
\<close>

theorem pad_to_cyclic_prefix:
  "(s \<noteq> [] \<and> 0 \<le> n \<longrightarrow> pad_to (s :: 'a list) n = Some (map (\<lambda>i. s ! (i mod length s)) [0..<nat n]))
   \<and> pad_to [a, b, c :: 'a] 7 = Some [a, b, c, a, b, c, a]"
proof
  show "s \<noteq> [] \<and> 0 \<le> n \<longrightarrow> pad_to s n = Some (map (\<lambda>i. s ! (i mod length s)) [0..<nat n])"
    using pad_to_cycle [of s n] by blast
  show "pad_to [a, b, c] 7 = Some [a, b, c, a, b, c, a]"
    by (simp add: pad_to_def pad_loop.simps py_slice_def slice_bound_def)
qed

theorem pad_to_cyclic_prefix_witness:
  "[1, 2, 3 :: nat] \<noteq> [] \<and> (0 :: int) \<le> 7
   \<and> pad_to [1, 2, 3 :: nat] 7 = Some [1, 2, 3, 1, 2, 3, 1]"
  using pad_to_cyclic_prefix [of "[1, 2, 3 :: nat]" 7 1 2 3] by (simp add: upt_rec)

section \<open>The plan: a week per index, slices of equal size\<close>

lemma pad_to_length:
  assumes "0 \<le> n"
  shows "\<exists>ys. pad_to xs n = Some ys \<and> int (length ys) = (if xs = [] then 0 else n)"
proof (cases "xs = []")
  case True
  then show ?thesis by (simp add: pad_to_empty)
next
  case False
  then show ?thesis using assms by (simp add: pad_to_cycle)
qed

lemma generate_returns:
  assumes "search_videos S youtube_api_key (skill @ '' tutorial'') (weeks * videos_per_week) search_order = Inr raw"
    and "pad_to raw (weeks * videos_per_week) = Some vs"
    and "pad_to (get_articles_for_tag (feedparser_parse S) (tag_slug_of (str_lower S) skill) (weeks * articles_per_week))
           (weeks * articles_per_week) = Some as"
  shows "generate_learning_path S skill youtube_api_key weeks videos_per_week articles_per_week search_order
         = Some (Inr (map (week_entry skill videos_per_week articles_per_week vs as) (py_range weeks)))"
  using assms by (simp add: generate_learning_path_def Let_def)

lemma py_slice_length:
  assumes "0 \<le> a" and "a \<le> b" and "b \<le> int (length xs)"
  shows "int (length (py_slice xs a b)) = b - a"
proof -
  have "slice_bound a (length xs) = nat a" "slice_bound b (length xs) = nat b"
    using assms by (auto simp: slice_bound_def)
  then have "length (py_slice xs a b) = min (length xs - nat a) (nat b - nat a)"
    by (simp add: py_slice_def Let_def)
  then show ?thesis using assms by linarith
qed

lemma week_slice_length:
  assumes "0 \<le> per_week" and "k \<in> set (py_range weeks)" and "int (length xs) = weeks * per_week"
  shows "int (length (py_slice xs (k * per_week) ((k + 1) * per_week))) = per_week"
proof -
  have k: "0 \<le> k" "k + 1 \<le> weeks" using assms(2) by (auto simp: py_range_def)
  have "0 \<le> k * per_week" using k assms(1) by simp
  moreover have "k * per_week \<le> (k + 1) * per_week" using assms(1) by (simp add: mult_right_mono)
  moreover have "(k + 1) * per_week \<le> int (length xs)"
    using k(2) assms(1,3) by (simp add: mult_right_mono)
  ultimately have "int (length (py_slice xs (k * per_week) ((k + 1) * per_week)))
      = (k + 1) * per_week - k * per_week"
    by (rule py_slice_length)
  then show ?thesis by (simp add: algebra_simps)
qed

lemma sum_week_slices:
  assumes "0 \<le> weeks" and "0 \<le> per_week" and "int (length xs) = weeks * per_week"
  shows "(\<Sum>k\<leftarrow>py_range weeks. int (length (py_slice xs (k * per_week) ((k + 1) * per_week))))
         = weeks * per_week"
proof -
  have "(\<Sum>k\<leftarrow>py_range weeks. int (length (py_slice xs (k * per_week) ((k + 1) * per_week))))
        = (\<Sum>k\<leftarrow>py_range weeks. per_week)"
    by (rule arg_cong [where f = sum_list], rule map_cong [OF refl])
       (rule week_slice_length [OF assms(2) _ assms(3)])
  also have "\<dots> = int (length (py_range weeks)) * per_week"
    by (simp add: sum_list_triv)
  also have "\<dots> = weeks * per_week" using assms(1) by (simp add: py_range_def)
  finally show ?thesis .
qed

lemma sum_week_slices_empty:
  "(\<Sum>k\<leftarrow>py_range weeks. int (length (py_slice [] (k * per_week) ((k + 1) * per_week)))) = 0"
  by (simp add: py_slice_def)

lemma sum_week_slices_padded:
  assumes "0 \<le> weeks" and "0 \<le> per_week" and "pad_to raw (weeks * per_week) = Some xs"
  shows "(\<Sum>k\<leftarrow>py_range weeks. int (length (py_slice xs (k * per_week) ((k + 1) * per_week))))
         = (if raw = [] then 0 else weeks * per_week)"
proof -
  have n: "0 \<le> weeks * per_week" using assms(1,2) by simp
  from pad_to_length [OF n, of raw] assms(3)
  have len: "int (length xs) = (if raw = [] then 0 else weeks * per_week)" by auto
  show ?thesis
  proof (cases "raw = []")
    case True
    then have "xs = []" using len by simp
    then show ?thesis using True by (simp add: sum_week_slices_empty)
  next
    case False
    then show ?thesis using len sum_week_slices [OF assms(1,2)] by simp
  qed
qed

text \<open>
  Claim C1. For non-negative \<open>weeks\<close>, \<open>videos_per_week\<close> and \<open>articles_per_week\<close>,
  whenever the video adapter returns (its raw result being \<open>raw_videos\<close>), the call returns
  a plan whose weekly video lists have lengths summing to \<open>weeks * videos_per_week\<close> when
  \<open>raw_videos\<close> is non-empty and to 0 when it is empty; the same holds for the articles with
  \<open>articles_per_week\<close> and the raw result of the article adapter.
\<close>

theorem plan_totals:
  assumes "0 \<le> weeks" and "0 \<le> videos_per_week" and "0 \<le> articles_per_week"
    and "search_videos S youtube_api_key (skill @ '' tutorial'') (weeks * videos_per_week) search_order
         = Inr raw_videos"
    and "get_articles_for_tag (feedparser_parse S) (tag_slug_of (str_lower S) skill) (weeks * articles_per_week)
         = raw_articles"
  shows "\<exists>plan. generate_learning_path S skill youtube_api_key weeks videos_per_week articles_per_week search_order
                 = Some (Inr plan)
           \<and> (\<Sum>w\<leftarrow>plan. int (length (videos w))) = (if raw_videos = [] then 0 else weeks * videos_per_week)
           \<and> (\<Sum>w\<leftarrow>plan. int (length (articles w))) = (if raw_articles = [] then 0 else weeks * articles_per_week)"
proof -
  have nv: "0 \<le> weeks * videos_per_week" and na: "0 \<le> weeks * articles_per_week"
    using assms(1-3) by simp_all
  obtain vs where vs: "pad_to raw_videos (weeks * videos_per_week) = Some vs"
    using pad_to_length [OF nv, of raw_videos] by blast
  obtain as where as: "pad_to raw_articles (weeks * articles_per_week) = Some as"
    using pad_to_length [OF na, of raw_articles] by blast
  let ?plan = "map (week_entry skill videos_per_week articles_per_week vs as) (py_range weeks)"
  have "generate_learning_path S skill youtube_api_key weeks videos_per_week articles_per_week search_order
        = Some (Inr ?plan)"
    using assms(4) vs as unfolding assms(5) [symmetric] by (rule generate_returns)
  moreover have "(\<Sum>w\<leftarrow>?plan. int (length (videos w))) = (if raw_videos = [] then 0 else weeks * videos_per_week)"
    using sum_week_slices_padded [OF assms(1,2) vs] by (simp add: week_entry_def comp_def)
  moreover have "(\<Sum>w\<leftarrow>?plan. int (length (articles w))) = (if raw_articles = [] then 0 else weeks * articles_per_week)"
    using sum_week_slices_padded [OF assms(1,3) as] by (simp add: week_entry_def comp_def)
  ultimately show ?thesis by blast
qed

lemma demo_search_all:
  assumes "3 \<le> m"
  shows "search_videos demo_services k q m ord = Inr demo_videos"
proof -
  have "take (nat m) demo_items = demo_items"
    using assms by (simp add: demo_items_def)
  then show ?thesis
    by (simp add: search_videos_def demo_services_def demo_youtube_def demo_items_def demo_details_def
        demo_parse_def fetch_durations_def video_of_def duration_str_of_def get_or_empty_def
        str_int_def format_02d_def zero_pad_def digits.simps digit_char_def Let_def demo_videos_def)
qed

lemma demo_search_none: "search_videos demo_services k q 0 ord = Inr []"
  by (simp add: search_videos_def demo_services_def demo_youtube_def)

lemma slug_go: "tag_slug_of ascii_lower ''Go'' = ''go''"
proof -
  have d: "utf8_decode ''Go'' = [71, 111]"
    by (simp add: utf8_follow_def utf8_lead_def)
  have s: "strip [71, 111] = [71, 111]"
    by (simp add: strip_def is_space_def)
  have r: "re_sub_ws (ascii_lower [71, 111]) = [103, 111]"
    by (simp add: ascii_lower_def is_space_def)
  have e: "utf8_encode [103, 111] = ''go''"
    by code_simp
  show ?thesis
    by (simp only: tag_slug_of_def d s r e)
qed

lemma demo_articles_go: "get_articles_for_tag demo_feed ''go'' m = []"
  by (simp add: get_articles_for_tag_def demo_feed_def py_slice_def)

theorem plan_totals_witness:
  "(0 :: int) \<le> 2 \<and> (0 :: int) \<le> 2 \<and> (0 :: int) \<le> 1
   \<and> search_videos demo_services ''key'' (''Go'' @ '' tutorial'') (2 * 2) ''relevance'' = Inr demo_videos
   \<and> get_articles_for_tag (feedparser_parse demo_services) (tag_slug_of (str_lower demo_services) ''Go'') (2 * 1) = []
   \<and> demo_videos \<noteq> []
   \<and> (\<exists>plan. generate_learning_path demo_services ''Go'' ''key'' 2 2 1 ''relevance'' = Some (Inr plan)
          \<and> (\<Sum>w\<leftarrow>plan. int (length (videos w))) = 4
          \<and> (\<Sum>w\<leftarrow>plan. int (length (articles w))) = 0)"
proof -
  have v: "search_videos demo_services ''key'' (''Go'' @ '' tutorial'') (2 * 2) ''relevance'' = Inr demo_videos"
    by (rule demo_search_all) simp
  have a: "get_articles_for_tag (feedparser_parse demo_services) (tag_slug_of (str_lower demo_services) ''Go'') (2 * 1) = []"
    by (simp add: slug_go demo_articles_go demo_services_def)
  have n: "demo_videos \<noteq> []" by (simp add: demo_videos_def)
  from plan_totals [OF _ _ _ v a] show ?thesis
    using v a n by simp
qed

section \<open>Themes and activities\<close>

lemma pad_to_returns: "\<exists>ys. pad_to xs n = Some ys"
  using pad_loop_replicate [of xs n] by (auto simp: pad_to_def)

lemma generate_plan:
  assumes "search_videos S youtube_api_key (skill @ '' tutorial'') (weeks * videos_per_week) search_order = Inr raw"
  shows "\<exists>vs as. generate_learning_path S skill youtube_api_key weeks videos_per_week articles_per_week search_order
           = Some (Inr (map (week_entry skill videos_per_week articles_per_week vs as) (py_range weeks)))"
proof -
  obtain vs where vs: "pad_to raw (weeks * videos_per_week) = Some vs"
    using pad_to_returns by blast
  obtain as where as: "pad_to (get_articles_for_tag (feedparser_parse S) (tag_slug_of (str_lower S) skill) (weeks * articles_per_week))
           (weeks * articles_per_week) = Some as"
    using pad_to_returns by blast
  show ?thesis using generate_returns [OF assms vs as] by blast
qed

text \<open>
  Claim C9. The padding loop of \<open>generate_learning_path\<close> ends on every sequence and every
  required total: \<open>pad_loop\<close> returns a value (it is never \<open>None\<close>). On a non-empty
  sequence each round doubles the length, so the distance to the required total shrinks;
  on the empty sequence the loop is skipped and the sequence stays empty. Hence every call of
  \<open>generate_learning_path\<close> comes to an end, with a plan or with an exception of the
  video client.
\<close>

theorem pad_loop_terminates:
  "(\<exists>padded. pad_loop s n = Some padded)
   \<and> pad_loop ([] :: 'a list) n = Some []
   \<and> (\<exists>outcome. generate_learning_path S skill youtube_api_key weeks videos_per_week articles_per_week search_order
                  = Some outcome)"
proof (intro conjI)
  show "\<exists>padded. pad_loop s n = Some padded"
    using pad_loop_replicate [of s n] by blast
  show "pad_loop ([] :: 'a list) n = Some []"
    by (subst pad_loop.simps) simp
  show "\<exists>outcome. generate_learning_path S skill youtube_api_key weeks videos_per_week articles_per_week search_order
                  = Some outcome"
  proof (cases "search_videos S youtube_api_key (skill @ '' tutorial'') (weeks * videos_per_week) search_order")
    case (Inl e)
    then show ?thesis by (simp add: generate_learning_path_def)
  next
    case (Inr raw)
    then show ?thesis using generate_plan [OF Inr, of articles_per_week] by blast
  qed
qed

lemma py_range_nth: "n < nat weeks \<Longrightarrow> py_range weeks ! n = int n"
  by (simp add: py_range_def)

lemma length_py_range: "length (py_range weeks) = nat weeks"
  by (simp add: py_range_def)

lemma theme_week_entry:
  "theme (week_entry skill vpw apw vs as (int n)) =
     (if n = 0 then ''Foundations'' else if n = 1 then ''Core Concepts''
      else if n = 2 then ''Advanced Topics'' else if n = 3 then ''Project & Practice''
      else ''Week '' @ str_int (int n + 1))"
proof -
  consider "n = 0" | "n = 1" | "n = 2" | "n = 3" | "4 \<le> n" by linarith
  then show ?thesis
    by cases (simp_all add: week_entry_def default_themes_def)
qed

lemma six_themes:
  "map theme (map (week_entry skill vpw apw vs as) (py_range 6)) =
     [''Foundations'', ''Core Concepts'', ''Advanced Topics'', ''Project & Practice'',
      ''Week 5'', ''Week 6'']"
proof -
  have r: "py_range 6 = [0, 1, 2, 3, 4, 5]"
    by (simp add: py_range_def upt_rec)
  have d: "str_int 5 = ''5''" "str_int 6 = ''6''"
    by (simp_all add: str_int_def digits.simps digit_char_def)
  show ?thesis
    unfolding r by (simp add: week_entry_def default_themes_def d)
qed

lemma activities_week_entry:
  "activities (week_entry skill vpw apw vs as k) = suggest_activities k skill"
  by (simp add: week_entry_def)

lemma suggest_activities_eq_iff:
  "(suggest_activities (int i) skill = suggest_activities (int j) skill) = (min i 3 = min j 3)"
proof -
  consider "i = 0" | "i = 1" | "i = 2" | "3 \<le> i" by linarith
  then show ?thesis
  proof cases
    case 1
    consider "j = 0" | "j = 1" | "j = 2" | "3 \<le> j" by linarith
    then show ?thesis using 1 by cases (simp_all add: suggest_activities_def)
  next
    case 2
    consider "j = 0" | "j = 1" | "j = 2" | "3 \<le> j" by linarith
    then show ?thesis using 2 by cases (simp_all add: suggest_activities_def)
  next
    case 3
    consider "j = 0" | "j = 1" | "j = 2" | "3 \<le> j" by linarith
    then show ?thesis using 3 by cases (simp_all add: suggest_activities_def)
  next
    case 4
    consider "j = 0" | "j = 1" | "j = 2" | "3 \<le> j" by linarith
    then show ?thesis using 4 by cases (simp_all add: suggest_activities_def)
  qed
qed

lemma themes_nth:
  "\<forall>n < nat weeks. theme (map (week_entry skill vpw apw vs as) (py_range weeks) ! n) =
                 (if n = 0 then ''Foundations'' else if n = 1 then ''Core Concepts''
                  else if n = 2 then ''Advanced Topics'' else if n = 3 then ''Project & Practice''
                  else ''Week '' @ str_int (int n + 1))"
proof (intro allI impI)
  fix n assume n: "n < nat weeks"
  then have "map (week_entry skill vpw apw vs as) (py_range weeks) ! n
      = week_entry skill vpw apw vs as (int n)"
    by (simp add: length_py_range py_range_nth)
  then show "theme (map (week_entry skill vpw apw vs as) (py_range weeks) ! n) =
                 (if n = 0 then ''Foundations'' else if n = 1 then ''Core Concepts''
                  else if n = 2 then ''Advanced Topics'' else if n = 3 then ''Project & Practice''
                  else ''Week '' @ str_int (int n + 1))"
    by (simp only: theme_week_entry)
qed

text \<open>
  Claim C6. Whenever the video adapter returns, the plan has one entry per week; the entries
  with index 0 to 3 carry the themes \<open>Foundations\<close>, \<open>Core Concepts\<close>,
  \<open>Advanced Topics\<close>, \<open>Project & Practice\<close> in this order, and every entry with index
  \<open>n \<ge> 4\<close> carries \<open>Week\<close> followed by the decimal numeral of \<open>n + 1\<close>. For six weeks
  the last two themes are \<open>Week 5\<close> and \<open>Week 6\<close>.
\<close>

theorem themes_by_index:
  assumes "search_videos S youtube_api_key (skill @ '' tutorial'') (weeks * videos_per_week) search_order = Inr raw"
  shows "\<exists>plan. generate_learning_path S skill youtube_api_key weeks videos_per_week articles_per_week search_order
                 = Some (Inr plan)
           \<and> length plan = nat weeks
           \<and> (\<forall>n < nat weeks. theme (plan ! n) =
                 (if n = 0 then ''Foundations'' else if n = 1 then ''Core Concepts''
                  else if n = 2 then ''Advanced Topics'' else if n = 3 then ''Project & Practice''
                  else ''Week '' @ str_int (int n + 1)))
           \<and> (weeks = 6 \<longrightarrow> map theme plan =
                 [''Foundations'', ''Core Concepts'', ''Advanced Topics'', ''Project & Practice'',
                  ''Week 5'', ''Week 6''])"
proof -
  obtain vs as where plan:
    "generate_learning_path S skill youtube_api_key weeks videos_per_week articles_per_week search_order
       = Some (Inr (map (week_entry skill videos_per_week articles_per_week vs as) (py_range weeks)))"
    using generate_plan [OF assms] by blast
  show ?thesis
  proof (intro exI conjI)
    show "generate_learning_path S skill youtube_api_key weeks videos_per_week articles_per_week search_order
       = Some (Inr (map (week_entry skill videos_per_week articles_per_week vs as) (py_range weeks)))"
      by (rule plan)
    show "length (map (week_entry skill videos_per_week articles_per_week vs as) (py_range weeks)) = nat weeks"
      by (simp add: length_py_range)
    show "\<forall>n < nat weeks. theme (map (week_entry skill videos_per_week articles_per_week vs as) (py_range weeks) ! n) =
                 (if n = 0 then ''Foundations'' else if n = 1 then ''Core Concepts''
                  else if n = 2 then ''Advanced Topics'' else if n = 3 then ''Project & Practice''
                  else ''Week '' @ str_int (int n + 1))"
      by (rule themes_nth)
    show "weeks = 6 \<longrightarrow> map theme (map (week_entry skill videos_per_week articles_per_week vs as) (py_range weeks)) =
                 [''Foundations'', ''Core Concepts'', ''Advanced Topics'', ''Project & Practice'',
                  ''Week 5'', ''Week 6'']"
    proof (rule impI)
      assume w: "weeks = 6"
      show "map theme (map (week_entry skill videos_per_week articles_per_week vs as) (py_range weeks)) =
                 [''Foundations'', ''Core Concepts'', ''Advanced Topics'', ''Project & Practice'',
                  ''Week 5'', ''Week 6'']"
        unfolding w by (rule six_themes)
    qed
  qed
qed

theorem themes_by_index_witness:
  "search_videos demo_services ''key'' (''Go'' @ '' tutorial'') (6 * 2) ''relevance'' = Inr demo_videos
   \<and> (\<exists>plan. generate_learning_path demo_services ''Go'' ''key'' 6 2 1 ''relevance'' = Some (Inr plan)
          \<and> length plan = 6
          \<and> map theme plan =
                 [''Foundations'', ''Core Concepts'', ''Advanced Topics'', ''Project & Practice'',
                  ''Week 5'', ''Week 6''])"
proof -
  have h: "search_videos demo_services ''key'' (''Go'' @ '' tutorial'') (6 * 2) ''relevance'' = Inr demo_videos"
    by (rule demo_search_all) simp
  from themes_by_index [OF h, of 1] show ?thesis
    using h by auto
qed

text \<open>
  Claim C3, amended. The activities text of a week is fixed by the branch its index takes in
  \<open>_suggest_activities\<close> (0, 1, 2, or any larger index), not by the index modulo 4: two weeks
  of a plan carry the same text exactly when their indices agree after capping at 3. The four
  texts are pairwise distinct; those of the indices 0, 1 and 3 onwards contain the skill name,
  the text of index 2 is the same for every skill.
\<close>

theorem activities_by_branch:
  assumes "search_videos S youtube_api_key (skill @ '' tutorial'') (weeks * videos_per_week) search_order = Inr raw"
  shows "\<exists>plan. generate_learning_path S skill youtube_api_key weeks videos_per_week articles_per_week search_order
                 = Some (Inr plan)
           \<and> length plan = nat weeks
           \<and> (\<forall>i < nat weeks. \<forall>j < nat weeks.
                 (activities (plan ! i) = activities (plan ! j)) = (min i 3 = min j 3))
           \<and> (\<forall>i < nat weeks. activities (plan ! i) =
                 (if i = 0 then
                    ''Set up your environment for '' @ skill @ ''. Work through basic examples ''
                    @ ''covered in the videos and summarise the key concepts in your own words.''
                  else if i = 1 then
                    ''Experiment with building small components or programs using '' @ skill @ ''. ''
                    @ ''Complete exercises from articles and implement variations.''
                  else if i = 2 then
                    ''Apply what you'' @ [CHR 0xE2, CHR 0x80, CHR 0x99] @ ''ve learned to a mini''
                    @ [CHR 0xE2, CHR 0x80, CHR 0x91] @ ''project. Focus on more advanced features ''
                    @ ''and read deeper resources.''
                  else
                    ''Develop a capstone project incorporating multiple concepts of '' @ skill @ ''. ''
                    @ ''Write a blog post or create a video summarising your project and share it.''))"
proof -
  obtain vs as where plan:
    "generate_learning_path S skill youtube_api_key weeks videos_per_week articles_per_week search_order
       = Some (Inr (map (week_entry skill videos_per_week articles_per_week vs as) (py_range weeks)))"
    using generate_plan [OF assms] by blast
  let ?plan = "map (week_entry skill videos_per_week articles_per_week vs as) (py_range weeks)"
  have nth: "activities (?plan ! i) = suggest_activities (int i) skill" if "i < nat weeks" for i
    using that by (simp add: length_py_range py_range_nth activities_week_entry)
  show ?thesis
  proof (intro exI conjI)
    show "generate_learning_path S skill youtube_api_key weeks videos_per_week articles_per_week search_order
       = Some (Inr ?plan)"
      by (rule plan)
    show "length ?plan = nat weeks"
      by (simp add: length_py_range)
    show "\<forall>i < nat weeks. \<forall>j < nat weeks.
            (activities (?plan ! i) = activities (?plan ! j)) = (min i 3 = min j 3)"
    proof (intro allI impI)
      fix i j assume "i < nat weeks" "j < nat weeks"
      then show "(activities (?plan ! i) = activities (?plan ! j)) = (min i 3 = min j 3)"
        by (simp only: nth suggest_activities_eq_iff)
    qed
    show "\<forall>i < nat weeks. activities (?plan ! i) =
                 (if i = 0 then
                    ''Set up your environment for '' @ skill @ ''. Work through basic examples ''
                    @ ''covered in the videos and summarise the key concepts in your own words.''
                  else if i = 1 then
                    ''Experiment with building small components or programs using '' @ skill @ ''. ''
                    @ ''Complete exercises from articles and implement variations.''
                  else if i = 2 then
                    ''Apply what you'' @ [CHR 0xE2, CHR 0x80, CHR 0x99] @ ''ve learned to a mini''
                    @ [CHR 0xE2, CHR 0x80, CHR 0x91] @ ''project. Focus on more advanced features ''
                    @ ''and read deeper resources.''
                  else
                    ''Develop a capstone project incorporating multiple concepts of '' @ skill @ ''. ''
                    @ ''Write a blog post or create a video summarising your project and share it.'')"
    proof (intro allI impI)
      fix i assume "i < nat weeks"
      then have "activities (?plan ! i) = suggest_activities (int i) skill" by (rule nth)
      then show "activities (?plan ! i) =
                 (if i = 0 then
                    ''Set up your environment for '' @ skill @ ''. Work through basic examples ''
                    @ ''covered in the videos and summarise the key concepts in your own words.''
                  else if i = 1 then
                    ''Experiment with building small components or programs using '' @ skill @ ''. ''
                    @ ''Complete exercises from articles and implement variations.''
                  else if i = 2 then
                    ''Apply what you'' @ [CHR 0xE2, CHR 0x80, CHR 0x99] @ ''ve learned to a mini''
                    @ [CHR 0xE2, CHR 0x80, CHR 0x91] @ ''project. Focus on more advanced features ''
                    @ ''and read deeper resources.''
                  else
                    ''Develop a capstone project incorporating multiple concepts of '' @ skill @ ''. ''
                    @ ''Write a blog post or create a video summarising your project and share it.'')"
        by (simp add: suggest_activities_def)
    qed
  qed
qed

lemma demo_plan_five:
  "generate_learning_path demo_services ''Go'' ''key'' 5 0 0 ''relevance''
   = Some (Inr (map (week_entry ''Go'' 0 0 [] []) (py_range 5)))"
proof -
  have v: "search_videos demo_services ''key'' (''Go'' @ '' tutorial'') (5 * 0) ''relevance'' = Inr []"
    by (simp add: demo_search_none)
  have a: "get_articles_for_tag (feedparser_parse demo_services) (tag_slug_of (str_lower demo_services) ''Go'') (5 * 0) = []"
    by (simp add: get_articles_for_tag_def py_slice_def slice_bound_def)
  have pv: "pad_to ([] :: video_resource list) (5 * 0) = Some []"
    by (rule pad_to_empty)
  have pa: "pad_to (get_articles_for_tag (feedparser_parse demo_services) (tag_slug_of (str_lower demo_services) ''Go'') (5 * 0)) (5 * 0)
            = Some []"
    unfolding a by (rule pad_to_empty)
  show ?thesis by (rule generate_returns [OF v pv pa])
qed

lemma py_range_five: "py_range 5 = [0, 1, 2, 3, 4]"
  by (simp add: py_range_def upt_rec)

text \<open>
  Claim C3 as stated fails: in a plan of five weeks the indices 0 and 4 are congruent modulo 4
  and carry different texts, and the text of index 2 does not mention the skill.
\<close>

theorem activities_mod4_counterexample:
  "map_option (map_sum id (map activities))
     (generate_learning_path demo_services ''Go'' ''key'' 5 0 0 ''relevance'')
   = Some (Inr
      [''Set up your environment for Go. Work through basic examples covered in the videos and summarise the key concepts in your own words.'',
       ''Experiment with building small components or programs using Go. Complete exercises from articles and implement variations.'',
       ''Apply what you'' @ [CHR 0xE2, CHR 0x80, CHR 0x99] @ ''ve learned to a mini''
         @ [CHR 0xE2, CHR 0x80, CHR 0x91] @ ''project. Focus on more advanced features and read deeper resources.'',
       ''Develop a capstone project incorporating multiple concepts of Go. Write a blog post or create a video summarising your project and share it.'',
       ''Develop a capstone project incorporating multiple concepts of Go. Write a blog post or create a video summarising your project and share it.''])
   \<and> (0 :: int) mod 4 = 4 mod 4
   \<and> suggest_activities 0 ''Go'' \<noteq> suggest_activities 4 ''Go''
   \<and> suggest_activities 2 ''Go'' = suggest_activities 2 ''Rust''"
  unfolding demo_plan_five py_range_five
  by (simp add: week_entry_def suggest_activities_def)

theorem activities_by_branch_witness:
  "search_videos demo_services ''key'' (''Go'' @ '' tutorial'') (5 * 0) ''relevance'' = Inr []
   \<and> (\<exists>plan. generate_learning_path demo_services ''Go'' ''key'' 5 0 0 ''relevance'' = Some (Inr plan)
          \<and> length plan = 5
          \<and> activities (plan ! 0) \<noteq> activities (plan ! 4)
          \<and> activities (plan ! 3) = activities (plan ! 4))"
proof -
  have v: "search_videos demo_services ''key'' (''Go'' @ '' tutorial'') (5 * 0) ''relevance'' = Inr []"
    by (simp add: demo_search_none)
  from activities_by_branch [OF v, of 0] obtain plan where
    p: "generate_learning_path demo_services ''Go'' ''key'' 5 0 0 ''relevance'' = Some (Inr plan)"
    and l: "length plan = nat 5"
    and e: "\<forall>i < nat 5. \<forall>j < nat 5.
                 (activities (plan ! i) = activities (plan ! j)) = (min i 3 = min j 3)"
    by (elim exE conjE)
  have "activities (plan ! 0) \<noteq> activities (plan ! 4)"
    using e [rule_format, of 0 4] by simp
  moreover have "activities (plan ! 3) = activities (plan ! 4)"
    using e [rule_format, of 3 4] by simp
  ultimately show ?thesis using v p l by simp
qed

section \<open>The video client\<close>

lemma collect_video_ids_Inr:
  "(collect_video_ids items = Inr ids) = (map videoId items = map Some ids)"
proof (induction items arbitrary: ids)
  case Nil
  then show ?case by auto
next
  case (Cons item items)
  show ?case
  proof (cases "videoId item")
    case None
    then show ?thesis by auto
  next
    case (Some vid_id)
    show ?thesis
    proof (cases "collect_video_ids items")
      case (Inl e)
      then have "\<And>ids'. map videoId items \<noteq> map Some ids'" using Cons.IH by auto
      then show ?thesis using Some Inl by (cases ids) auto
    next
      case (Inr ids')
      then have "map videoId items = map Some ids'" using Cons.IH by simp
      then show ?thesis using Some Inr by (cases ids) (auto simp: inj_map_eq_map)
    qed
  qed
qed

lemma collect_video_ids_error: "collect_video_ids items = Inl e \<Longrightarrow> e = KeyError"
  by (induction items) (auto split: option.splits sum.splits)

lemma collect_durations_error: "collect_durations vids d = Inl e \<Longrightarrow> e = KeyError"
  by (induction vids arbitrary: d) (auto split: option.splits)

lemma fetch_durations_error: "fetch_durations youtube ids = Inl e \<Longrightarrow> e \<noteq> HttpError"
  by (auto simp: fetch_durations_def split: sum.splits if_splits dest: collect_durations_error)

lemma search_videos_cases:
  assumes "search_videos S api_key query max_results ord = Inr found"
  shows "found = [] \<or>
         (\<exists>items ids durations.
            search_list (build S api_key) query max_results ord = Inr (Some items)
            \<and> map videoId items = map Some ids
            \<and> fetch_durations (build S api_key) ids = Inr durations
            \<and> found = map (video_of (parse_duration S) durations) (zip items ids))"
  using assms
  by (auto simp: search_videos_def Let_def collect_video_ids_Inr split: sum.splits if_splits option.splits)

lemma video_of_url: "url (video_of parse durations p) = ''https://www.youtube.com/watch?v='' @ video_id (video_of parse durations p)"
  by (simp add: video_of_def Let_def)

text \<open>
  Claim C10. Every video that \<open>search_videos\<close> returns has as \<open>url\<close> the text
  \<open>https://www.youtube.com/watch?v=\<close> followed by its own \<open>video_id\<close>.
\<close>

theorem search_videos_url:
  assumes "search_videos S api_key query max_results ord = Inr found" and "v \<in> set found"
  shows "url v = ''https://www.youtube.com/watch?v='' @ video_id v"
proof -
  from search_videos_cases [OF assms(1)] assms(2)
  obtain durations p where "v = video_of (parse_duration S) durations p"
    by auto
  then show ?thesis by (simp only: video_of_url)
qed

theorem search_videos_url_witness:
  "search_videos demo_services ''key'' ''Go tutorial'' 4 ''relevance'' = Inr demo_videos
   \<and> demo_videos ! 0 \<in> set demo_videos
   \<and> url (demo_videos ! 0) = ''https://www.youtube.com/watch?v='' @ video_id (demo_videos ! 0)"
proof -
  have s: "search_videos demo_services ''key'' ''Go tutorial'' 4 ''relevance'' = Inr demo_videos"
    by (rule demo_search_all) simp
  have m: "demo_videos ! 0 \<in> set demo_videos" by (simp add: demo_videos_def)
  from search_videos_url [OF s m] show ?thesis using s m by simp
qed

lemma search_videos_error:
  "search_videos S api_key query max_results ord = Inl e \<Longrightarrow> e \<noteq> HttpError"
  by (auto simp: search_videos_def Let_def split: sum.splits if_splits option.splits
      dest: collect_video_ids_error fetch_durations_error)

lemma search_videos_primary_down:
  "search_list (build S api_key) query max_results ord = Inl HttpError
   \<Longrightarrow> search_videos S api_key query max_results ord = Inr []"
  by (simp add: search_videos_def)

lemma duration_str_of_None: "duration_str_of parse None = []"
  by (simp add: duration_str_of_def)

lemma search_videos_details_down:
  assumes "search_list (build S api_key) query max_results ord = Inr (Some items)"
    and "map videoId items = map Some ids"
    and "videos_list (build S api_key) (join '','' ids) = Inl HttpError"
  shows "search_videos S api_key query max_results ord
         = Inr (map (video_of (parse_duration S) Map.empty) (zip items ids))"
proof -
  have c: "collect_video_ids items = Inr ids" using assms(2) by (simp add: collect_video_ids_Inr)
  have f: "fetch_durations (build S api_key) ids = Inr Map.empty"
    using assms(3) by (simp add: fetch_durations_def)
  show ?thesis
  proof (cases "items = []")
    case True
    then show ?thesis using assms(1) by (simp add: search_videos_def)
  next
    case False
    then show ?thesis using assms(1) c f by (simp add: search_videos_def)
  qed
qed

text \<open>
  What the client does about \<open>HttpError\<close>: it never raises one. When the search call
  raises it the result is the empty list; when the search call returns items that all carry
  a video id and the details lookup raises it, the result has one video per item, in order,
  with the items' ids, each with an empty duration.
\<close>

lemma search_videos_http_errors:
  "search_videos S api_key query max_results ord \<noteq> Inl HttpError
   \<and> (search_list (build S api_key) query max_results ord = Inl HttpError
        \<longrightarrow> search_videos S api_key query max_results ord = Inr [])
   \<and> (search_list (build S api_key) query max_results ord = Inr (Some items)
        \<and> map videoId items = map Some ids
        \<and> videos_list (build S api_key) (join '','' ids) = Inl HttpError
        \<longrightarrow> (\<exists>found. search_videos S api_key query max_results ord = Inr found
                \<and> length found = length items
                \<and> map video_id found = ids
                \<and> (\<forall>v \<in> set found. duration v = [])))"
proof (intro conjI impI)
  show "search_videos S api_key query max_results ord \<noteq> Inl HttpError"
    using search_videos_error [of S api_key query max_results ord HttpError] by blast
next
  assume "search_list (build S api_key) query max_results ord = Inl HttpError"
  then show "search_videos S api_key query max_results ord = Inr []"
    by (rule search_videos_primary_down)
next
  assume a: "search_list (build S api_key) query max_results ord = Inr (Some items)
        \<and> map videoId items = map Some ids
        \<and> videos_list (build S api_key) (join '','' ids) = Inl HttpError"
  let ?found = "map (video_of (parse_duration S) Map.empty) (zip items ids)"
  have len: "length items = length ids"
    using a by (metis length_map)
  have "search_videos S api_key query max_results ord = Inr ?found"
    using a by (intro search_videos_details_down) simp_all
  moreover have "length ?found = length items" using len by simp
  moreover have "map video_id ?found = ids"
    using len by (simp add: video_of_def Let_def comp_def case_prod_beta)
  moreover have "\<forall>v \<in> set ?found. duration v = []"
    by (auto simp: video_of_def Let_def duration_str_of_None)
  ultimately show "\<exists>found. search_videos S api_key query max_results ord = Inr found
                \<and> length found = length items
                \<and> map video_id found = ids
                \<and> (\<forall>v \<in> set found. duration v = [])"
    by blast
qed

lemma demo_items_ids: "map videoId demo_items = map Some [''a1'', ''b2'', ''c3'']"
  by (simp add: demo_items_def)

text \<open>
  Claim C5. The claim has no API or transport error leave \<open>search_videos\<close>, and the comment
  in the second \<open>except\<close> clause says of the details lookup: if this call fails, the videos
  are still returned without durations. The code catches \<open>HttpError\<close> only: an error of
  another class raised by the search call, or by the details lookup after a search that
  returned items, leaves \<open>search_videos\<close> as the exception raised, and no video is returned.
\<close>

theorem search_videos_transport_failure:
  "(search_list (build S api_key) query max_results ord = Inl e \<and> e \<noteq> HttpError
      \<longrightarrow> search_videos S api_key query max_results ord = Inl e)
   \<and> (search_list (build S api_key) query max_results ord = Inr (Some items) \<and> items \<noteq> []
      \<and> map videoId items = map Some ids
      \<and> videos_list (build S api_key) (join '','' ids) = Inl e \<and> e \<noteq> HttpError
      \<longrightarrow> search_videos S api_key query max_results ord = Inl e)"
proof (intro conjI impI)
  assume "search_list (build S api_key) query max_results ord = Inl e \<and> e \<noteq> HttpError"
  then show "search_videos S api_key query max_results ord = Inl e"
    by (simp add: search_videos_def)
next
  assume a: "search_list (build S api_key) query max_results ord = Inr (Some items) \<and> items \<noteq> []
      \<and> map videoId items = map Some ids
      \<and> videos_list (build S api_key) (join '','' ids) = Inl e \<and> e \<noteq> HttpError"
  then have c: "collect_video_ids items = Inr ids" by (simp add: collect_video_ids_Inr)
  have f: "fetch_durations (build S api_key) ids = Inl e"
    using a by (simp add: fetch_durations_def)
  show "search_videos S api_key query max_results ord = Inl e"
    using a c f by (simp add: search_videos_def)
qed

theorem search_videos_transport_failure_witness:
  "search_list (build search_offline_services ''key'') ''Go tutorial'' 4 ''relevance'' = Inl TransportError
   \<and> TransportError \<noteq> HttpError
   \<and> search_videos search_offline_services ''key'' ''Go tutorial'' 4 ''relevance'' = Inl TransportError
   \<and> search_list (build details_offline_services ''key'') ''Go tutorial'' 4 ''relevance'' = Inr (Some demo_items)
   \<and> demo_items \<noteq> []
   \<and> map videoId demo_items = map Some [''a1'', ''b2'', ''c3'']
   \<and> videos_list (build details_offline_services ''key'') (join '','' [''a1'', ''b2'', ''c3''])
       = Inl TransportError
   \<and> search_videos details_offline_services ''key'' ''Go tutorial'' 4 ''relevance'' = Inl TransportError"
proof -
  have a: "search_list (build search_offline_services ''key'') ''Go tutorial'' 4 ''relevance'' = Inl TransportError"
    by (simp add: search_offline_services_def)
  have n: "TransportError \<noteq> HttpError" by simp
  have b: "search_list (build details_offline_services ''key'') ''Go tutorial'' 4 ''relevance'' = Inr (Some demo_items)"
    by (simp add: details_offline_services_def demo_youtube_def demo_items_def)
  have i: "demo_items \<noteq> []" by (simp add: demo_items_def)
  have c: "videos_list (build details_offline_services ''key'') (join '','' [''a1'', ''b2'', ''c3''])
       = Inl TransportError"
    by (simp add: details_offline_services_def)
  have 1: "search_videos search_offline_services ''key'' ''Go tutorial'' 4 ''relevance'' = Inl TransportError"
    by (rule mp [OF conjunct1 [OF search_videos_transport_failure]]) (intro conjI a n)
  have 2: "search_videos details_offline_services ''key'' ''Go tutorial'' 4 ''relevance'' = Inl TransportError"
    by (rule mp [OF conjunct2 [OF search_videos_transport_failure
            [where items = demo_items and ids = "[''a1'', ''b2'', ''c3'']"]]])
       (intro conjI b i demo_items_ids c n)
  show ?thesis
    by (intro conjI a n 1 b i demo_items_ids c 2)
qed

lemma is_digit_digit_char: "d < 10 \<Longrightarrow> is_digit (digit_char d)"
proof -
  assume "d < 10"
  have "list_all (\<lambda>d. is_digit (digit_char d)) [0..<10]"
    by (simp add: upt_rec is_digit_def digit_char_def)
  then show ?thesis using \<open>d < 10\<close> by (simp add: list_all_iff)
qed

lemma digits_nonempty: "digits n \<noteq> []"
  by (subst digits.simps) simp

lemma digits_all_digit: "list_all is_digit (digits n)"
proof (induction n rule: digits.induct)
  case (1 n)
  show ?case
  proof (cases "n < 10")
    case True
    then show ?thesis by (subst digits.simps) (simp add: is_digit_digit_char)
  next
    case False
    then have "list_all is_digit (digits (n div 10))" by (rule "1.IH")
    then show ?thesis using False by (subst digits.simps) (simp add: is_digit_digit_char)
  qed
qed

lemma is_digit_not_colon: "is_digit c \<Longrightarrow> c \<noteq> CHR '':''"
  by (auto simp: is_digit_def)

lemma is_digit_not_minus: "is_digit c \<Longrightarrow> c \<noteq> CHR ''-''"
  by (auto simp: is_digit_def)

lemma format_02d_two_digits:
  assumes "0 \<le> b" and "b < 100"
  shows "format_02d b = [digit_char (nat b div 10), digit_char (nat b mod 10)]"
proof (cases "nat b < 10")
  case True
  then have "digits (nat b) = [digit_char (nat b)]" by (subst digits.simps) simp
  then show ?thesis using True assms by (simp add: format_02d_def zero_pad_def digit_char_def)
next
  case False
  then have "nat b div 10 < 10" using assms by linarith
  then have "digits (nat b div 10) = [digit_char (nat b div 10)]" by (subst digits.simps) simp
  then have "digits (nat b) = [digit_char (nat b div 10), digit_char (nat b mod 10)]"
    using False by (subst digits.simps) simp
  then show ?thesis using assms by (simp add: format_02d_def zero_pad_def)
qed

lemma min_sec_form_minutes_seconds:
  assumes "0 \<le> b" and "b < 100"
  shows "min_sec_form (str_int a @ '':'' @ format_02d b)"
proof -
  define m where "m = str_int a"
  define s where "s = m @ '':'' @ format_02d b"
  have sec: "format_02d b = [digit_char (nat b div 10), digit_char (nat b mod 10)]"
    using assms by (rule format_02d_two_digits)
  have colon: "\<forall>c \<in> set m. c \<noteq> CHR '':''"
    using digits_all_digit [of "nat a"] digits_all_digit [of "nat (- a)"]
    by (auto simp: m_def str_int_def list_all_iff dest: is_digit_not_colon)
  have tw: "takeWhile (\<lambda>c. c \<noteq> CHR '':'') s = m"
    using colon by (simp add: s_def)
  have dw: "dropWhile (\<lambda>c. c \<noteq> CHR '':'') s
            = [CHR '':'', digit_char (nat b div 10), digit_char (nat b mod 10)]"
    using colon by (simp add: s_def sec)
  have d1: "is_digit (digit_char (nat b div 10))" "is_digit (digit_char (nat b mod 10))"
    using assms by (auto intro!: is_digit_digit_char)
  have ds: "(case m of [] \<Rightarrow> [] | c # cs \<Rightarrow> if c = CHR ''-'' then cs else m)
            = (if a < 0 then digits (nat (- a)) else digits (nat a))"
  proof (cases "a < 0")
    case True
    then show ?thesis by (simp add: m_def str_int_def)
  next
    case False
    obtain c cs where cs: "digits (nat a) = c # cs"
      using digits_nonempty [of "nat a"] by (cases "digits (nat a)") auto
    then have "is_digit c" using digits_all_digit [of "nat a"] by simp
    then have "c \<noteq> CHR ''-''" by (rule is_digit_not_minus)
    then show ?thesis using False cs by (simp add: m_def str_int_def)
  qed
  have "min_sec_form s"
    unfolding min_sec_form_def Let_def tw dw ds
    using d1 by (simp add: digits_nonempty digits_all_digit)
  then show ?thesis by (simp add: s_def m_def)
qed

lemma duration_str_of_parsed:
  assumes "iso_text \<noteq> []" and "parse iso_text = Inr t"
  shows "duration_str_of parse (Some iso_text) = str_int (t div 60) @ '':'' @ format_02d (t mod 60)"
  using assms by (simp add: duration_str_of_def Let_def)

lemma duration_str_of_cases:
  "duration_str_of parse looked_up = []
   \<or> min_sec_form (duration_str_of parse looked_up)
   \<or> (\<exists>e. parse (duration_str_of parse looked_up) = Inl e)"
proof (cases looked_up)
  case None
  then show ?thesis by (simp add: duration_str_of_def)
next
  case (Some iso_text)
  show ?thesis
  proof (cases "iso_text = []")
    case True
    then show ?thesis using Some by (simp add: duration_str_of_def)
  next
    case False
    show ?thesis
    proof (cases "parse iso_text")
      case (Inl e)
      then show ?thesis using Some False by (simp add: duration_str_of_def)
    next
      case (Inr t)
      have "min_sec_form (str_int (t div 60) @ '':'' @ format_02d (t mod 60))"
        by (rule min_sec_form_minutes_seconds) simp_all
      then show ?thesis using Some False Inr by (simp add: duration_str_of_parsed)
    qed
  qed
qed

lemma str_int_2: "str_int 2 = ''2''"
  by (simp add: str_int_def digits.simps digit_char_def)

lemma format_02d_5: "format_02d 5 = ''05''"
  by (simp add: format_02d_def zero_pad_def digits.simps digit_char_def)

lemma video_of_ids:
  "length items = length ids \<Longrightarrow> map video_id (map (video_of parse durations) (zip items ids)) = ids"
  by (induction items ids rule: list_induct2) (simp_all add: video_of_def Let_def)

lemma search_videos_duration:
  assumes "search_videos S api_key query max_results ord = Inr found" and "v \<in> set found"
  shows "\<exists>durations. fetch_durations (build S api_key) (map video_id found) = Inr durations
           \<and> duration v = duration_str_of (parse_duration S) (durations (video_id v))"
proof -
  from search_videos_cases [OF assms(1)] assms(2)
  obtain items ids durations where f: "map videoId items = map Some ids"
    "fetch_durations (build S api_key) ids = Inr durations"
    "found = map (video_of (parse_duration S) durations) (zip items ids)"
    by auto
  have "length items = length ids" using f(1) by (metis length_map)
  then have "map video_id found = ids" unfolding f(3) by (rule video_of_ids)
  moreover obtain p where "v = video_of (parse_duration S) durations p"
    using assms(2) f(3) by auto
  then have "duration v = duration_str_of (parse_duration S) (durations (video_id v))"
    by (simp add: video_of_def Let_def)
  ultimately show ?thesis using f(2) by auto
qed

text \<open>
  Claim C4, amended. The \<open>duration\<close> of every returned video is the conversion of what
  the details lookup holds for its id, and it is empty, or of the form minutes, colon, two
  digits of seconds, or a text the duration parser rejects. The conversion yields the
  minutes-and-seconds form whenever the looked-up text is non-empty and parses (\<open>2:05\<close> for
  125 seconds), the looked-up text itself, unchanged, when it does not parse, and the empty
  text when the lookup has nothing (or an empty text) for the id.
\<close>

theorem duration_field_cases:
  "(search_videos S api_key query max_results ord = Inr found \<and> v \<in> set found
      \<longrightarrow> (\<exists>durations. fetch_durations (build S api_key) (map video_id found) = Inr durations
                \<and> duration v = duration_str_of (parse_duration S) (durations (video_id v)))
          \<and> (duration v = [] \<or> min_sec_form (duration v) \<or> (\<exists>e. parse_duration S (duration v) = Inl e)))
   \<and> (iso_text \<noteq> [] \<and> parse iso_text = Inr t
      \<longrightarrow> min_sec_form (duration_str_of parse (Some iso_text))
          \<and> duration_str_of parse (Some iso_text) = str_int (t div 60) @ '':'' @ format_02d (t mod 60))
   \<and> (iso_text \<noteq> [] \<and> parse iso_text = Inr 125 \<longrightarrow> duration_str_of parse (Some iso_text) = ''2:05'')
   \<and> (parse iso_text = Inl e \<longrightarrow> duration_str_of parse (Some iso_text) = iso_text)
   \<and> duration_str_of parse None = []
   \<and> duration_str_of parse (Some []) = []"
proof (intro conjI impI)
  assume a: "search_videos S api_key query max_results ord = Inr found \<and> v \<in> set found"
  then obtain durations where d: "fetch_durations (build S api_key) (map video_id found) = Inr durations"
    "duration v = duration_str_of (parse_duration S) (durations (video_id v))"
    using search_videos_duration [of S api_key query max_results ord found v] by auto
  then show "\<exists>durations. fetch_durations (build S api_key) (map video_id found) = Inr durations
                \<and> duration v = duration_str_of (parse_duration S) (durations (video_id v))"
    by auto
  show "duration v = [] \<or> min_sec_form (duration v) \<or> (\<exists>e. parse_duration S (duration v) = Inl e)"
    using duration_str_of_cases [of "parse_duration S" "durations (video_id v)"] d(2) by simp
next
  assume a: "iso_text \<noteq> [] \<and> parse iso_text = Inr t"
  then show eq: "duration_str_of parse (Some iso_text) = str_int (t div 60) @ '':'' @ format_02d (t mod 60)"
    by (simp add: duration_str_of_parsed)
  have "min_sec_form (str_int (t div 60) @ '':'' @ format_02d (t mod 60))"
    by (rule min_sec_form_minutes_seconds) simp_all
  then show "min_sec_form (duration_str_of parse (Some iso_text))" by (simp only: eq)
next
  assume "iso_text \<noteq> [] \<and> parse iso_text = Inr 125"
  then show "duration_str_of parse (Some iso_text) = ''2:05''"
    by (simp add: duration_str_of_parsed str_int_2 format_02d_5)
next
  assume "parse iso_text = Inl e"
  then show "duration_str_of parse (Some iso_text) = iso_text"
    by (simp add: duration_str_of_def)
next
  show "duration_str_of parse None = []" by (simp add: duration_str_of_def)
  show "duration_str_of parse (Some []) = []" by (simp add: duration_str_of_def)
qed

theorem duration_field_cases_witness:
  "search_videos demo_services ''key'' ''Go tutorial'' 4 ''relevance'' = Inr demo_videos
   \<and> demo_videos ! 0 \<in> set demo_videos
   \<and> (duration (demo_videos ! 0) = [] \<or> min_sec_form (duration (demo_videos ! 0))
        \<or> (\<exists>e. parse_duration demo_services (duration (demo_videos ! 0)) = Inl e))
   \<and> duration (demo_videos ! 0) = ''2:05''
   \<and> ''PT2M5S'' \<noteq> [] \<and> demo_parse ''PT2M5S'' = Inr 125
   \<and> min_sec_form (duration_str_of demo_parse (Some ''PT2M5S''))
   \<and> duration_str_of demo_parse (Some ''PT2M5S'') = ''2:05''
   \<and> demo_parse ''unknown'' = Inl ValueError
   \<and> duration_str_of demo_parse (Some ''unknown'') = ''unknown''"
proof -
  have s: "search_videos demo_services ''key'' ''Go tutorial'' 4 ''relevance'' = Inr demo_videos"
    by (rule demo_search_all) simp
  have m: "demo_videos ! 0 \<in> set demo_videos" by (simp add: demo_videos_def)
  have p: "''PT2M5S'' \<noteq> [] \<and> demo_parse ''PT2M5S'' = Inr 125" by (simp add: demo_parse_def)
  have u: "demo_parse ''unknown'' = Inl ValueError" by (simp add: demo_parse_def)
  note inst1 = duration_field_cases [of demo_services "''key''" "''Go tutorial''" 4 "''relevance''"
      demo_videos "demo_videos ! 0" "''PT2M5S''" demo_parse 125 ValueError]
  note inst2 = duration_field_cases [of demo_services "''key''" "''Go tutorial''" 4 "''relevance''"
      demo_videos "demo_videos ! 0" "''unknown''" demo_parse 125 ValueError]
  have 1: "duration (demo_videos ! 0) = [] \<or> min_sec_form (duration (demo_videos ! 0))
        \<or> (\<exists>e. parse_duration demo_services (duration (demo_videos ! 0)) = Inl e)"
    using mp [OF conjunct1 [OF inst1] conjI [OF s m]] by (rule conjunct2)
  have 2: "min_sec_form (duration_str_of demo_parse (Some ''PT2M5S''))"
    using mp [OF conjunct1 [OF conjunct2 [OF inst1]] p] by (rule conjunct1)
  have 3: "duration_str_of demo_parse (Some ''PT2M5S'') = ''2:05''"
    by (rule mp [OF conjunct1 [OF conjunct2 [OF conjunct2 [OF inst1]]] p])
  have 4: "duration_str_of demo_parse (Some ''unknown'') = ''unknown''"
    by (rule mp [OF conjunct1 [OF conjunct2 [OF conjunct2 [OF conjunct2 [OF inst2]]]] u])
  have 5: "duration (demo_videos ! 0) = ''2:05''" by (simp add: demo_videos_def)
  show ?thesis
    by (intro conjI s m 1 2 3 4 5 u conjunct1 [OF p] conjunct2 [OF p])
qed

text \<open>
  Claim C4 as stated fails: a looked-up duration that does not parse is returned as it is,
  neither empty nor in the minutes-and-seconds form.
\<close>

theorem unparsed_duration_counterexample:
  "search_videos demo_services ''key'' ''Go tutorial'' 4 ''relevance'' = Inr demo_videos
   \<and> demo_parse ''unknown'' = Inl ValueError
   \<and> duration (demo_videos ! 1) = ''unknown''
   \<and> ''unknown'' \<noteq> ''''
   \<and> \<not> min_sec_form ''unknown''"
proof -
  have s: "search_videos demo_services ''key'' ''Go tutorial'' 4 ''relevance'' = Inr demo_videos"
    by (rule demo_search_all) simp
  show ?thesis unfolding s
    by (simp add: demo_parse_def demo_videos_def min_sec_form_def is_digit_def)
qed

section \<open>The article client\<close>

lemma get_articles_for_tag_take:
  assumes "0 \<le> max_articles"
  shows "get_articles_for_tag feed tag max_articles
         = map article_of (take (nat max_articles) (feed (''https://medium.com/feed/tag/'' @ tag)))"
  using assms by (simp add: get_articles_for_tag_def Let_def py_slice_prefix)

text \<open>
  Claim C8, amended. For \<open>max_articles \<ge> 0\<close> the client returns at most \<open>max_articles\<close>
  articles, the \<open>i\<close>-th made from the \<open>i\<close>-th entry of the feed. A missing \<open>title\<close>,
  \<open>link\<close> or \<open>summary\<close> gives the empty text; \<open>published\<close> is the entry's
  \<open>published\<close> when present and non-empty, otherwise the entry's \<open>updated\<close>, and the
  empty text when that is missing too.
\<close>

theorem get_articles_for_tag_entries:
  assumes "0 \<le> max_articles"
    and "feed (''https://medium.com/feed/tag/'' @ tag) = entries"
    and "get_articles_for_tag feed tag max_articles = found"
  shows "int (length found) \<le> max_articles
         \<and> length found = min (nat max_articles) (length entries)
         \<and> (\<forall>i < length found.
               article_title (found ! i) = (case entry_title (entries ! i) of None \<Rightarrow> [] | Some s \<Rightarrow> s)
             \<and> article_url (found ! i) = (case entry_link (entries ! i) of None \<Rightarrow> [] | Some s \<Rightarrow> s)
             \<and> summary (found ! i) = (case entry_summary (entries ! i) of None \<Rightarrow> [] | Some s \<Rightarrow> s)
             \<and> published (found ! i) =
                 (case entry_published (entries ! i) of
                    None \<Rightarrow> (case entry_updated (entries ! i) of None \<Rightarrow> [] | Some u \<Rightarrow> u)
                  | Some p \<Rightarrow> if p \<noteq> [] then p
                             else (case entry_updated (entries ! i) of None \<Rightarrow> [] | Some u \<Rightarrow> u)))"
proof -
  have f: "found = map article_of (take (nat max_articles) entries)"
    using get_articles_for_tag_take [OF assms(1), of feed tag] assms(2,3) by simp
  have "length found = min (nat max_articles) (length entries)"
    unfolding f by (simp add: min.commute)
  moreover from this have "int (length found) \<le> max_articles"
    using assms(1) by linarith
  moreover have "\<forall>i < length found.
               article_title (found ! i) = (case entry_title (entries ! i) of None \<Rightarrow> [] | Some s \<Rightarrow> s)
             \<and> article_url (found ! i) = (case entry_link (entries ! i) of None \<Rightarrow> [] | Some s \<Rightarrow> s)
             \<and> summary (found ! i) = (case entry_summary (entries ! i) of None \<Rightarrow> [] | Some s \<Rightarrow> s)
             \<and> published (found ! i) =
                 (case entry_published (entries ! i) of
                    None \<Rightarrow> (case entry_updated (entries ! i) of None \<Rightarrow> [] | Some u \<Rightarrow> u)
                  | Some p \<Rightarrow> if p \<noteq> [] then p
                             else (case entry_updated (entries ! i) of None \<Rightarrow> [] | Some u \<Rightarrow> u))"
    unfolding f
    by (auto simp: article_of_def get_or_empty_def py_or_def split: option.splits)
  ultimately show ?thesis by blast
qed

lemma demo_articles_react:
  "get_articles_for_tag demo_feed ''react'' 2 =
     [\<lparr> article_title = ''Hooks'', article_url = ''https://medium.com/p/1'',
        published = ''Mon, 01 Jan 2024'', summary = ''About hooks'' \<rparr>,
      \<lparr> article_title = '''', article_url = '''', published = ''2024-02-02'', summary = '''' \<rparr>]"
  by (simp add: get_articles_for_tag_def demo_feed_def demo_entries_def py_slice_def slice_bound_def
      article_of_def get_or_empty_def py_or_def)

text \<open>
  Claim C8 as stated fails for \<open>published\<close>: an entry without \<open>published\<close> and with
  \<open>updated\<close> yields an article whose \<open>published\<close> is not empty.
\<close>

theorem published_fallback_counterexample:
  "get_articles_for_tag demo_feed ''react'' 2 =
     [\<lparr> article_title = ''Hooks'', article_url = ''https://medium.com/p/1'',
        published = ''Mon, 01 Jan 2024'', summary = ''About hooks'' \<rparr>,
      \<lparr> article_title = '''', article_url = '''', published = ''2024-02-02'', summary = '''' \<rparr>]
   \<and> entry_published (demo_feed ''https://medium.com/feed/tag/react'' ! 1) = None
   \<and> ''2024-02-02'' \<noteq> ''''"
  by (simp add: demo_articles_react) (simp add: demo_feed_def demo_entries_def)

theorem get_articles_for_tag_entries_witness:
  "(0 :: int) \<le> 1
   \<and> demo_feed (''https://medium.com/feed/tag/'' @ ''react'') = demo_entries
   \<and> int (length (get_articles_for_tag demo_feed ''react'' 1)) \<le> 1
   \<and> length (get_articles_for_tag demo_feed ''react'' 1) = 1
   \<and> article_title (get_articles_for_tag demo_feed ''react'' 1 ! 0) = ''Hooks''
   \<and> published (get_articles_for_tag demo_feed ''react'' 1 ! 0) = ''Mon, 01 Jan 2024''"
proof -
  have e: "demo_feed (''https://medium.com/feed/tag/'' @ ''react'') = demo_entries"
    by (simp add: demo_feed_def)
  have z: "(0 :: int) \<le> 1" by simp
  note inst = get_articles_for_tag_entries [of 1 demo_feed "''react''" demo_entries
      "get_articles_for_tag demo_feed ''react'' 1", OF z e refl]
  have l: "length (get_articles_for_tag demo_feed ''react'' 1) = 1"
    using conjunct1 [OF conjunct2 [OF inst]] by (simp add: demo_entries_def)
  have "0 < length (get_articles_for_tag demo_feed ''react'' 1)" using l by simp
  with conjunct2 [OF conjunct2 [OF inst]]
  have "article_title (get_articles_for_tag demo_feed ''react'' 1 ! 0)
          = (case entry_title (demo_entries ! 0) of None \<Rightarrow> [] | Some s \<Rightarrow> s)"
    "published (get_articles_for_tag demo_feed ''react'' 1 ! 0) =
                 (case entry_published (demo_entries ! 0) of
                    None \<Rightarrow> (case entry_updated (demo_entries ! 0) of None \<Rightarrow> [] | Some u \<Rightarrow> u)
                  | Some p \<Rightarrow> if p \<noteq> [] then p
                             else (case entry_updated (demo_entries ! 0) of None \<Rightarrow> [] | Some u \<Rightarrow> u))"
    by blast+
  then have "article_title (get_articles_for_tag demo_feed ''react'' 1 ! 0) = ''Hooks''"
    "published (get_articles_for_tag demo_feed ''react'' 1 ! 0) = ''Mon, 01 Jan 2024''"
    by (simp_all add: demo_entries_def)
  then show ?thesis using e l conjunct1 [OF inst] by simp
qed

section \<open>The tag slug\<close>

lemma join_Cons: "join sep (x # ys) = (if ys = [] then x else x @ sep @ join sep ys)"
  by (cases ys) simp_all

lemma re_sub_ws_nonspace_prefix:
  "\<forall>c \<in> set w. \<not> is_space c \<Longrightarrow> re_sub_ws (w @ r) = w @ re_sub_ws r"
  by (induction w) simp_all

lemma words_of_skip: "words_of (dropWhile is_space s) = words_of s"
  by (induction s) simp_all

lemma re_sub_ws_words:
  assumes "trimmed t"
  shows "re_sub_ws t = join [45] (words_of t)"
  using assms
proof (induction t rule: length_induct)
  case (1 t)
  show ?case
  proof (cases t)
    case Nil
    then show ?thesis by simp
  next
    case (Cons c cs)
    then have c: "\<not> is_space c" using "1.prems" by (simp add: trimmed_def)
    have lt0: "\<not> is_space (last t)" using "1.prems" Cons by (simp add: trimmed_def)
    define w where "w = takeWhile (\<lambda>x. \<not> is_space x) cs"
    define r where "r = dropWhile (\<lambda>x. \<not> is_space x) cs"
    have cs: "cs = w @ r" by (simp add: w_def r_def)
    have w: "\<forall>x \<in> set (c # w). \<not> is_space x"
      using c by (auto simp: w_def dest: set_takeWhileD)
    have sub: "re_sub_ws t = (c # w) @ re_sub_ws r"
      unfolding Cons cs using re_sub_ws_nonspace_prefix [OF w, of r] by simp
    have wo: "words_of t = (c # w) # words_of r"
      unfolding Cons using c by (simp add: w_def r_def)
    show ?thesis
    proof (cases r)
      case Nil
      then show ?thesis using sub wo by simp
    next
      case (Cons sp r')
      have "r \<noteq> []" using Cons by simp
      then have "\<not> \<not> is_space (hd r)" unfolding r_def by (rule hd_dropWhile)
      then have sp: "is_space sp" using Cons by simp
      define u where "u = dropWhile is_space r'"
      have lt: "last t = last r" using \<open>t = c # cs\<close> cs Cons by simp
      then have lr: "\<not> is_space (last r)" using lt0 by simp
      then have r': "r' \<noteq> []" using Cons sp by auto
      then have lr': "\<not> is_space (last r')" using lr Cons by simp
      have "last r' \<in> set r'" using r' by simp
      then have un: "u \<noteq> []" using lr' by (auto simp: u_def dropWhile_eq_Nil_conv)
      have hu: "\<not> is_space (hd u)" using un hd_dropWhile [of is_space r'] by (simp add: u_def)
      have "r' = takeWhile is_space r' @ u" by (simp add: u_def)
      then have "last u = last r'" using un by (metis last_appendR)
      then have lu: "\<not> is_space (last u)" using lr' by simp
      have tu: "trimmed u" using hu lu by (simp add: trimmed_def)
      have "length u < length t"
        using length_dropWhile_le [of is_space r'] \<open>t = c # cs\<close> cs Cons by (simp add: u_def)
      then have ih: "re_sub_ws u = join [45] (words_of u)"
        using "1.IH" tu by blast
      have "re_sub_ws r = 45 # re_sub_ws u"
        using Cons sp by (simp add: u_def)
      moreover have "words_of r = words_of u"
        using Cons sp by (simp add: u_def words_of_skip)
      moreover have "words_of u \<noteq> []"
        using un hu by (cases u) simp_all
      ultimately show ?thesis using sub wo ih by (simp add: join_Cons)
    qed
  qed
qed

lemma strip_decompose:
  "\<exists>pre post. s = pre @ strip s @ post \<and> list_all is_space pre \<and> list_all is_space post"
proof -
  define a where "a = dropWhile is_space s"
  have 1: "s = takeWhile is_space s @ a" by (simp add: a_def)
  have 2: "a = strip s @ rev (takeWhile is_space (rev a))"
    unfolding strip_def a_def [symmetric]
    by (metis rev_append rev_rev_ident takeWhile_dropWhile_id)
  have 3: "list_all is_space (takeWhile is_space s)"
    by (auto simp: list_all_iff dest: set_takeWhileD)
  have 4: "list_all is_space (rev (takeWhile is_space (rev a)))"
    by (auto simp: list_all_iff dest: set_takeWhileD)
  have "s = takeWhile is_space s @ strip s @ rev (takeWhile is_space (rev a))"
    using 1 2 by metis
  then show ?thesis using 3 4 by blast
qed

lemma trimmed_strip: "trimmed (strip s)"
proof (cases "strip s = []")
  case True
  then show ?thesis by (simp add: trimmed_def)
next
  case n: False
  define a where "a = dropWhile is_space s"
  have "a = strip s @ rev (takeWhile is_space (rev a))"
    unfolding strip_def a_def [symmetric]
    by (metis rev_append rev_rev_ident takeWhile_dropWhile_id)
  then have "hd a = hd (strip s)" using n by (metis hd_append2)
  moreover have "a \<noteq> []" using n unfolding strip_def a_def [symmetric] by auto
  then have "\<not> is_space (hd a)" unfolding a_def by (rule hd_dropWhile)
  ultimately have h: "\<not> is_space (hd (strip s))" by simp
  have "dropWhile is_space (rev (dropWhile is_space s)) \<noteq> []" using n by (simp add: strip_def)
  then have "\<not> is_space (hd (dropWhile is_space (rev (dropWhile is_space s))))"
    by (rule hd_dropWhile)
  then have "\<not> is_space (last (strip s))"
    using n by (simp add: strip_def last_rev)
  then show ?thesis using h by (simp add: trimmed_def)
qed

lemma tag_slug_trimmed:
  assumes "trimmed (lower (strip (utf8_decode skill)))"
  shows "tag_slug_of lower skill = slug_spec lower skill"
  using re_sub_ws_words [OF assms] by (simp add: tag_slug_of_def slug_spec_def)

lemma decode_ml: "utf8_decode '' Machine  Learning '' = [32, 77, 97, 99, 104, 105, 110, 101, 32, 32, 76, 101, 97, 114, 110, 105, 110, 103, 32]"
  by (simp add: utf8_follow_def utf8_lead_def)

lemma decode_ml_stripped: "utf8_decode ''Machine  Learning'' = [77, 97, 99, 104, 105, 110, 101, 32, 32, 76, 101, 97, 114, 110, 105, 110, 103]"
  by (simp add: utf8_follow_def utf8_lead_def)

lemma decode_ml_lower: "utf8_decode ''machine  learning'' = [109, 97, 99, 104, 105, 110, 101, 32, 32, 108, 101, 97, 114, 110, 105, 110, 103]"
  by (simp add: utf8_follow_def utf8_lead_def)

lemma strip_ml: "strip [32, 77, 97, 99, 104, 105, 110, 101, 32, 32, 76, 101, 97, 114, 110, 105, 110, 103, 32] = [77, 97, 99, 104, 105, 110, 101, 32, 32, 76, 101, 97, 114, 110, 105, 110, 103]"
  by (simp add: strip_def is_space_def)

lemma re_sub_ml: "re_sub_ws [109, 97, 99, 104, 105, 110, 101, 32, 32, 108, 101, 97, 114, 110, 105, 110, 103] = [109, 97, 99, 104, 105, 110, 101, 45, 108, 101, 97, 114, 110, 105, 110, 103]"
  by (simp add: is_space_def)

lemma encode_ml: "utf8_encode [109, 97, 99, 104, 105, 110, 101, 45, 108, 101, 97, 114, 110, 105, 110, 103] = ''machine-learning''"
  by code_simp

lemma ascii_lower_ml: "ascii_lower [77, 97, 99, 104, 105, 110, 101, 32, 32, 76, 101, 97, 114, 110, 105, 110, 103] = [109, 97, 99, 104, 105, 110, 101, 32, 32, 108, 101, 97, 114, 110, 105, 110, 103]"
  by (simp add: ascii_lower_def)

lemma decode_nb: "utf8_decode (''Go'' @ [CHR 0xC2, CHR 0xA0] @ ''Lang'') = [71, 111, 160, 76, 97, 110, 103]"
  by (simp add: utf8_follow_def utf8_lead_def)

lemma decode_nb_lower: "utf8_decode (''go'' @ [CHR 0xC2, CHR 0xA0] @ ''lang'') = [103, 111, 160, 108, 97, 110, 103]"
  by (simp add: utf8_follow_def utf8_lead_def)

lemma strip_nb: "strip [71, 111, 160, 76, 97, 110, 103] = [71, 111, 160, 76, 97, 110, 103]"
  by (simp add: strip_def is_space_def)

lemma re_sub_nb: "re_sub_ws [103, 111, 160, 108, 97, 110, 103] = [103, 111, 45, 108, 97, 110, 103]"
  by (simp add: is_space_def)

lemma encode_nb: "utf8_encode [103, 111, 45, 108, 97, 110, 103] = ''go-lang''"
  by code_simp

lemma ascii_lower_nb: "ascii_lower [71, 111, 160, 76, 97, 110, 103] = [103, 111, 160, 108, 97, 110, 103]"
  by (simp add: ascii_lower_def)

text \<open>
  Claim C7. For every skill, the slug that \<open>generate_learning_path\<close> computes and hands to
  the article client is made from the skill's code points in three steps. Trimming removes
  whitespace, and only whitespace, from both ends and leaves none there. Lower-casing is
  \<open>str.lower\<close>, which turns no character into whitespace. Then every run of whitespace
  becomes one hyphen: whenever the lower-cased text has no whitespace at its ends, the slug
  is the words of the trimmed, lower-cased skill joined by single hyphens, \<open>slug_spec\<close>.
  The plan's articles are those of the article client at this slug. The skill \<open>" Machine  Learning "\<close> yields \<open>machine-learning\<close>, and
  \<open>Go Lang\<close> written with a no-break space (U+00A0) yields \<open>go-lang\<close>.
\<close>

theorem tag_slug_words:
  "(\<exists>pre post. utf8_decode skill = pre @ strip (utf8_decode skill) @ post
        \<and> list_all is_space pre \<and> list_all is_space post)
   \<and> trimmed (strip (utf8_decode skill))
   \<and> (trimmed (lower (strip (utf8_decode skill))) \<longrightarrow> tag_slug_of lower skill = slug_spec lower skill)
   \<and> (search_videos S youtube_api_key (skill @ '' tutorial'') (weeks * videos_per_week) search_order = Inr raw
        \<longrightarrow> (\<exists>vs as. pad_to raw (weeks * videos_per_week) = Some vs
              \<and> pad_to (get_articles_for_tag (feedparser_parse S) (tag_slug_of (str_lower S) skill)
                          (weeks * articles_per_week))
                    (weeks * articles_per_week) = Some as
              \<and> generate_learning_path S skill youtube_api_key weeks videos_per_week articles_per_week search_order
                  = Some (Inr (map (week_entry skill videos_per_week articles_per_week vs as) (py_range weeks)))))
   \<and> (lower (utf8_decode ''Machine  Learning'') = utf8_decode ''machine  learning''
        \<longrightarrow> tag_slug_of lower '' Machine  Learning '' = ''machine-learning'')
   \<and> (lower (utf8_decode (''Go'' @ [CHR 0xC2, CHR 0xA0] @ ''Lang'')) = utf8_decode (''go'' @ [CHR 0xC2, CHR 0xA0] @ ''lang'')
        \<longrightarrow> tag_slug_of lower (''Go'' @ [CHR 0xC2, CHR 0xA0] @ ''Lang'') = ''go-lang'')"
proof (intro conjI impI)
  show "\<exists>pre post. utf8_decode skill = pre @ strip (utf8_decode skill) @ post
        \<and> list_all is_space pre \<and> list_all is_space post"
    by (rule strip_decompose)
  show "trimmed (strip (utf8_decode skill))"
    by (rule trimmed_strip)
next
  assume "trimmed (lower (strip (utf8_decode skill)))"
  then show "tag_slug_of lower skill = slug_spec lower skill"
    by (rule tag_slug_trimmed)
next
  assume v: "search_videos S youtube_api_key (skill @ '' tutorial'') (weeks * videos_per_week) search_order = Inr raw"
  obtain vs where vs: "pad_to raw (weeks * videos_per_week) = Some vs"
    using pad_to_returns by blast
  obtain as where as: "pad_to (get_articles_for_tag (feedparser_parse S) (tag_slug_of (str_lower S) skill)
                          (weeks * articles_per_week))
                    (weeks * articles_per_week) = Some as"
    using pad_to_returns by blast
  show "\<exists>vs as. pad_to raw (weeks * videos_per_week) = Some vs
              \<and> pad_to (get_articles_for_tag (feedparser_parse S) (tag_slug_of (str_lower S) skill)
                          (weeks * articles_per_week))
                    (weeks * articles_per_week) = Some as
              \<and> generate_learning_path S skill youtube_api_key weeks videos_per_week articles_per_week search_order
                  = Some (Inr (map (week_entry skill videos_per_week articles_per_week vs as) (py_range weeks)))"
    using vs as generate_returns [OF v vs as] by blast
next
  assume "lower (utf8_decode ''Machine  Learning'') = utf8_decode ''machine  learning''"
  then have "lower (strip (utf8_decode '' Machine  Learning '')) = utf8_decode ''machine  learning''"
    by (simp only: decode_ml strip_ml decode_ml_stripped)
  then show "tag_slug_of lower '' Machine  Learning '' = ''machine-learning''"
    by (simp only: tag_slug_of_def decode_ml_lower re_sub_ml encode_ml)
next
  assume "lower (utf8_decode (''Go'' @ [CHR 0xC2, CHR 0xA0] @ ''Lang'')) = utf8_decode (''go'' @ [CHR 0xC2, CHR 0xA0] @ ''lang'')"
  then have "lower (strip (utf8_decode (''Go'' @ [CHR 0xC2, CHR 0xA0] @ ''Lang''))) = utf8_decode (''go'' @ [CHR 0xC2, CHR 0xA0] @ ''lang'')"
    by (simp only: decode_nb strip_nb)
  then show "tag_slug_of lower (''Go'' @ [CHR 0xC2, CHR 0xA0] @ ''Lang'') = ''go-lang''"
    by (simp only: tag_slug_of_def decode_nb_lower re_sub_nb encode_nb)
qed

theorem tag_slug_words_witness:
  "trimmed (ascii_lower (strip (utf8_decode '' Machine  Learning '')))
   \<and> tag_slug_of ascii_lower '' Machine  Learning '' = slug_spec ascii_lower '' Machine  Learning ''
   \<and> ascii_lower (utf8_decode ''Machine  Learning'') = utf8_decode ''machine  learning''
   \<and> tag_slug_of ascii_lower '' Machine  Learning '' = ''machine-learning''
   \<and> ascii_lower (utf8_decode (''Go'' @ [CHR 0xC2, CHR 0xA0] @ ''Lang''))
       = utf8_decode (''go'' @ [CHR 0xC2, CHR 0xA0] @ ''lang'')
   \<and> tag_slug_of ascii_lower (''Go'' @ [CHR 0xC2, CHR 0xA0] @ ''Lang'') = ''go-lang''
   \<and> search_videos demo_services ''key'' ('' Machine  Learning '' @ '' tutorial'') (2 * 2) ''relevance''
       = Inr demo_videos
   \<and> (\<exists>vs as. pad_to demo_videos (2 * 2) = Some vs
          \<and> pad_to (get_articles_for_tag (feedparser_parse demo_services)
                       (tag_slug_of (str_lower demo_services) '' Machine  Learning '') (2 * 1))
                (2 * 1) = Some as
          \<and> generate_learning_path demo_services '' Machine  Learning '' ''key'' 2 2 1 ''relevance''
              = Some (Inr (map (week_entry '' Machine  Learning '' 2 1 vs as) (py_range 2))))"
proof -
  note inst = tag_slug_words [where skill = "'' Machine  Learning ''" and lower = ascii_lower
      and S = demo_services and youtube_api_key = "''key''" and weeks = 2 and videos_per_week = 2
      and articles_per_week = 1 and search_order = "''relevance''" and raw = demo_videos]
  have t: "trimmed (ascii_lower (strip (utf8_decode '' Machine  Learning '')))"
    unfolding decode_ml strip_ml ascii_lower_ml by (simp add: trimmed_def is_space_def)
  have 1: "tag_slug_of ascii_lower '' Machine  Learning '' = slug_spec ascii_lower '' Machine  Learning ''"
    by (rule mp [OF conjunct1 [OF conjunct2 [OF conjunct2 [OF inst]]] t])
  have l: "ascii_lower (utf8_decode ''Machine  Learning'') = utf8_decode ''machine  learning''"
    by (simp only: decode_ml_stripped decode_ml_lower ascii_lower_ml)
  have 2: "tag_slug_of ascii_lower '' Machine  Learning '' = ''machine-learning''"
    by (rule mp [OF conjunct1 [OF conjunct2 [OF conjunct2 [OF conjunct2 [OF conjunct2 [OF inst]]]]] l])
  have n: "ascii_lower (utf8_decode (''Go'' @ [CHR 0xC2, CHR 0xA0] @ ''Lang''))
       = utf8_decode (''go'' @ [CHR 0xC2, CHR 0xA0] @ ''lang'')"
    by (simp only: decode_nb decode_nb_lower ascii_lower_nb)
  have 3: "tag_slug_of ascii_lower (''Go'' @ [CHR 0xC2, CHR 0xA0] @ ''Lang'') = ''go-lang''"
    by (rule mp [OF conjunct2 [OF conjunct2 [OF conjunct2 [OF conjunct2 [OF conjunct2 [OF inst]]]]] n])
  have v: "search_videos demo_services ''key'' ('' Machine  Learning '' @ '' tutorial'') (2 * 2) ''relevance''
       = Inr demo_videos"
    by (rule demo_search_all) simp
  note 4 = mp [OF conjunct1 [OF conjunct2 [OF conjunct2 [OF conjunct2 [OF inst]]]] v]
  show ?thesis
    by (intro conjI t 1 l 2 n 3 v 4)
qed

end
